theory Spec2Isabelle
  imports Complex_Main "HOL-Library.Word" "HOL-Library.Signed_Division"
begin

section \<open>Fatal outcomes and C++ integer arithmetic\<close>

text \<open>
  The library has no recoverable errors: a failed \<^verbatim>\<open>assert\<close>, \<^verbatim>\<open>std::abort\<close> after a
  residual graphics error, and undefined behaviour (an access outside a buffer, a division
  by zero) end the computation. Each is a value of \<open>error\<close>, and every operation that
  can reach one returns \<open>error + 'a\<close>.

  The C++ type \<^verbatim>\<open>int\<close> has 32 bits. A value of that type is an \<open>int\<close> between
  \<open>INT_MIN\<close> and \<open>INT_MAX\<close>; an arithmetic result outside that range is undefined
  behaviour in C++ and is the error \<open>SignedOverflow\<close> here. Division and remainder are
  the truncating ones of C++ (\<open>sdiv\<close>, \<open>smod\<close>); they are undefined for a zero divisor
  and when the quotient does not fit.
\<close>

datatype error = AssertionFailed | Aborted | OutOfBounds | DivisionByZero | SignedOverflow

definition INT_MAX :: int where
  "INT_MAX = 2147483647"

definition INT_MIN :: int where
  "INT_MIN = - 2147483648"

definition in_int :: "int \<Rightarrow> bool" where
  "in_int v \<longleftrightarrow> INT_MIN \<le> v \<and> v \<le> INT_MAX"

text \<open>\<^verbatim>\<open>a / b\<close> and \<^verbatim>\<open>a % b\<close> on \<^verbatim>\<open>int\<close>.\<close>

definition c_div :: "int \<Rightarrow> int \<Rightarrow> error + int" where
  "c_div a b =
    (if b = 0 then Inl DivisionByZero
     else if \<not> in_int (a sdiv b) then Inl SignedOverflow
     else Inr (a sdiv b))"

definition c_mod :: "int \<Rightarrow> int \<Rightarrow> error + int" where
  "c_mod a b =
    (if b = 0 then Inl DivisionByZero
     else if \<not> in_int (a sdiv b) then Inl SignedOverflow
     else Inr (a smod b))"

text \<open>
  A line logged with \<^verbatim>\<open>log_warn\<close> or \<^verbatim>\<open>log_error\<close>: the format string and its
  arguments. \<^verbatim>\<open>LOG_TRACE\<close> and \<^verbatim>\<open>log_debug\<close> are left out.
\<close>

type_synonym GLuint = "32 word"

datatype log_line = Warn string "GLuint list" | Error string "GLuint list"

type_synonym byte = "8 word"

section \<open>cpu\_image.cpp: the host-memory image\<close>

text \<open>
  The fields \<^verbatim>\<open>width\<close>, \<^verbatim>\<open>height\<close>, \<^verbatim>\<open>channels\<close> and the element type come from the base
  class \<^verbatim>\<open>Image\<close>, whose header is not part of the sources. Of the element type only the
  number of bytes per channel is used; it is the field \<open>bytesPerChannel\<close>.
\<close>

record image_shape =
  width :: int
  height :: int
  channels :: int
  bytesPerChannel :: int

text \<open>
  Modelled from the spec: \<^verbatim>\<open>bytesPerPixel()\<close> and \<^verbatim>\<open>size()\<close> of the base class
  (``total byte size = width * height * channels * bytesPerElement'').
\<close>

definition bytesPerPixel :: "'a image_shape_scheme \<Rightarrow> int" where
  "bytesPerPixel img = channels img * bytesPerChannel img"

definition size_bytes :: "'a image_shape_scheme \<Rightarrow> int" where
  "size_bytes img = width img * height img * bytesPerPixel img"

record cpu_image = image_shape +
  data :: "byte list"

subsection \<open>Border policy\<close>

datatype Border = UNDEFINED | ZERO | REPEAT | MIRROR | WRAP

text \<open>
  \<^verbatim>\<open>applyBorder1D(int &i, int size, Border border)\<close>: the result is the returned flag and
  the new value of \<^verbatim>\<open>i\<close>. Under MIRROR, \<open>steps\<close> are the intermediate results of the
  assignment that is executed.
\<close>

definition applyBorder1D :: "int \<Rightarrow> int \<Rightarrow> Border \<Rightarrow> error + (bool \<times> int)" where
  "applyBorder1D i sz border =
    (if 0 \<le> i \<and> i < sz then Inr (True, i)
     else case border of
       ZERO \<Rightarrow> Inr (False, i)
     | MIRROR \<Rightarrow>
         (let steps = (if i < 0 then [- i]
                       else if sz \<le> i
                       then [sz - 1, i - (sz - 1), sz - 1 - (i - (sz - 1))]
                       else []);
              i' = (if i < 0 then - i
                    else if sz \<le> i then sz - 1 - (i - (sz - 1))
                    else i)
          in if \<not> list_all in_int steps then Inl SignedOverflow
             else if 0 \<le> i' \<and> i' < sz then Inr (True, i')
             else Inl AssertionFailed)
     | REPEAT \<Rightarrow>
         (if i < 0 then Inr (True, 0)
          else if sz \<le> i
          then (if in_int (sz - 1) then Inr (True, sz - 1) else Inl SignedOverflow)
          else Inr (True, i))
     | WRAP \<Rightarrow>
         (if i < 0
          then (if \<not> in_int (- i) then Inl SignedOverflow
                else case c_mod (- i) sz of
                       Inl e \<Rightarrow> Inl e
                     | Inr m \<Rightarrow>
                         if in_int (sz - m) then Inr (True, sz - m) else Inl SignedOverflow)
          else (case c_mod i sz of
                  Inl e \<Rightarrow> Inl e
                | Inr m \<Rightarrow> Inr (True, m)))
     | UNDEFINED \<Rightarrow> Inl AssertionFailed)"

text \<open>
  \<^verbatim>\<open>Image::applyBorder(int &x, int &y, Border border)\<close>: \<^verbatim>\<open>&&\<close> does not evaluate its
  right operand, and so leaves \<^verbatim>\<open>y\<close> as it is, when the left one is false.
\<close>

definition applyBorder ::
  "'a image_shape_scheme \<Rightarrow> int \<Rightarrow> int \<Rightarrow> Border \<Rightarrow> error + (bool \<times> int \<times> int)" where
  "applyBorder img x y border =
    (case applyBorder1D x (width img) border of
       Inl e \<Rightarrow> Inl e
     | Inr (okx, x') \<Rightarrow>
         if \<not> okx then Inr (False, x', y)
         else (case applyBorder1D y (height img) border of
                 Inl e \<Rightarrow> Inl e
               | Inr (oky, y') \<Rightarrow> Inr (oky, x', y')))"

definition applyBorder1D_twice :: "int \<Rightarrow> int \<Rightarrow> Border \<Rightarrow> error + (bool \<times> int)" where
  "applyBorder1D_twice i sz border =
    (case applyBorder1D i sz border of
       Inl e \<Rightarrow> Inl e
     | Inr (ok, j) \<Rightarrow> if ok then applyBorder1D j sz border else Inr (ok, j))"

subsection \<open>Per-channel access\<close>

text \<open>
  \<^verbatim>\<open>int ImageImplementation::index(int x, int y)\<close>, with every intermediate result of
  \<^verbatim>\<open>(y * width + x) * channels * bytesPerChannel()\<close>. The header that declares
  \<^verbatim>\<open>bytesPerChannel()\<close> is not part of the sources: the product is taken in \<^verbatim>\<open>int\<close>, the
  type that \<^verbatim>\<open>index\<close> returns.
\<close>

definition index :: "'a image_shape_scheme \<Rightarrow> int \<Rightarrow> int \<Rightarrow> error + int" where
  "index img x y =
    (let a = y * width img;
         b = a + x;
         c = b * channels img;
         d = c * bytesPerChannel img
     in if in_int a \<and> in_int b \<and> in_int c \<and> in_int d then Inr d
        else Inl SignedOverflow)"

text \<open>
  The loop of \<^verbatim>\<open>get(x, y, channel, targetArray)\<close>:
  \<^verbatim>\<open>for (std::size_t i = 0; i < bpc; ++i) targetArray[i] = data[i + offset];\<close>
  Neither \<^verbatim>\<open>std::vector::operator[]\<close> nor the pointer checks its index: an index outside
  the vector or outside the caller's array is undefined behaviour, here \<open>OutOfBounds\<close>.
\<close>

function get_loop :: "nat \<Rightarrow> nat \<Rightarrow> int \<Rightarrow> byte list \<Rightarrow> byte list \<Rightarrow> error + byte list" where
  "get_loop i bpc offset dat targetArray =
    (if i < bpc then
       (if 0 \<le> int i + offset \<and> int i + offset < int (length dat) \<and> i < length targetArray
        then get_loop (i + 1) bpc offset dat (targetArray[i := dat ! nat (int i + offset)])
        else Inl OutOfBounds)
     else Inr targetArray)"
  by pat_completeness auto
termination
  by (relation "measure (\<lambda>(i, bpc, offset, dat, targetArray). bpc - i)") auto

text \<open>
  The loop of \<^verbatim>\<open>set(x, y, channel, srcArray)\<close>:
  \<^verbatim>\<open>for (std::size_t i = 0; i < bpc; ++i) data[i + offset] = srcArray[i];\<close>
\<close>

function set_loop :: "nat \<Rightarrow> nat \<Rightarrow> int \<Rightarrow> byte list \<Rightarrow> byte list \<Rightarrow> error + byte list" where
  "set_loop i bpc offset dat srcArray =
    (if i < bpc then
       (if 0 \<le> int i + offset \<and> int i + offset < int (length dat) \<and> i < length srcArray
        then set_loop (i + 1) bpc offset (dat[nat (int i + offset) := srcArray ! i]) srcArray
        else Inl OutOfBounds)
     else Inr dat)"
  by pat_completeness auto
termination
  by (relation "measure (\<lambda>(i, bpc, offset, dat, srcArray). bpc - i)") auto

text \<open>
  \<^verbatim>\<open>get(int x, int y, int channel, std::uint8_t *targetArray)\<close>: the result is the
  caller's array after the call.
\<close>

definition get_channel :: "cpu_image \<Rightarrow> int \<Rightarrow> int \<Rightarrow> int \<Rightarrow> byte list \<Rightarrow> error + byte list" where
  "get_channel img x y channel targetArray =
    (if \<not> (0 \<le> channel \<and> channel < channels img) then Inl AssertionFailed
     else let bpc = bytesPerChannel img
          in case index img x y of
               Inl e \<Rightarrow> Inl e
             | Inr idx \<Rightarrow>
                 if in_int (channel * bpc) \<and> in_int (idx + channel * bpc)
                 then get_loop 0 (nat bpc) (idx + channel * bpc) (data img) targetArray
                 else Inl SignedOverflow)"

text \<open>
  \<^verbatim>\<open>set(int x, int y, int channel, const std::uint8_t *srcArray)\<close>: the result is the
  image after the call.
\<close>

definition set_channel :: "cpu_image \<Rightarrow> int \<Rightarrow> int \<Rightarrow> int \<Rightarrow> byte list \<Rightarrow> error + cpu_image" where
  "set_channel img x y channel srcArray =
    (if \<not> (0 \<le> channel \<and> channel < channels img) then Inl AssertionFailed
     else let bpc = bytesPerChannel img
          in case index img x y of
               Inl e \<Rightarrow> Inl e
             | Inr idx \<Rightarrow>
                 if in_int (channel * bpc) \<and> in_int (idx + channel * bpc)
                 then (case set_loop 0 (nat bpc) (idx + channel * bpc) (data img) srcArray of
                         Inl e \<Rightarrow> Inl e
                       | Inr dat \<Rightarrow> Inr (img\<lparr>data := dat\<rparr>))
                 else Inl SignedOverflow)"

text \<open>
  The constructor \<^verbatim>\<open>ImageImplementation(w, h, channels, dtype)\<close>: the vector is resized to
  \<^verbatim>\<open>size()\<close> bytes, which are zero.
\<close>

definition ImageImplementation :: "int \<Rightarrow> int \<Rightarrow> int \<Rightarrow> int \<Rightarrow> cpu_image" where
  "ImageImplementation w h ch bpc =
    \<lparr>width = w, height = h, channels = ch, bytesPerChannel = bpc,
     data = replicate
              (nat (size_bytes \<lparr>width = w, height = h, channels = ch, bytesPerChannel = bpc\<rparr>))
              0\<rparr>"

section \<open>opengl/read\_adapters.cpp: reading an image back in the caller's layout\<close>

subsection \<open>The loop of the row compaction\<close>

text \<open>
  \<^verbatim>\<open>std::memcpy(dst + dOff, src + sOff, n)\<close> on two distinct buffers. Copying from or to
  bytes outside a buffer is undefined behaviour.
\<close>

definition memcpy :: "byte list \<Rightarrow> int \<Rightarrow> byte list \<Rightarrow> int \<Rightarrow> int \<Rightarrow> error + byte list" where
  "memcpy dst dOff src sOff n =
    (if 0 \<le> n \<and> 0 \<le> dOff \<and> 0 \<le> sOff
        \<and> dOff + n \<le> int (length dst) \<and> sOff + n \<le> int (length src)
     then Inr (take (nat dOff) dst @ take (nat n) (drop (nat sOff) src)
                 @ drop (nat (dOff + n)) dst)
     else Inl OutOfBounds)"

text \<open>
  The loop of the closure \<^verbatim>\<open>cpuFunction\<close>:
  \<^verbatim>\<open>for (int i = 0; i < nRows; ++i) {
    std::memcpy(out + outOffset, cpuBuffer.data() + inOffset, origRowWidth);
    outOffset += origRowWidth; inOffset += bufRowWidth; }\<close>
  The result is \<^verbatim>\<open>inOffset\<close> and the caller's buffer \<^verbatim>\<open>out\<close> after the loop. The two
  offsets are \<^verbatim>\<open>int\<close> variables: a sum that does not fit is \<open>SignedOverflow\<close>
  (\<^verbatim>\<open>++i\<close> cannot overflow below \<^verbatim>\<open>nRows\<close>).
\<close>

function repack_loop ::
  "int \<Rightarrow> int \<Rightarrow> int \<Rightarrow> int \<Rightarrow> int \<Rightarrow> int \<Rightarrow> byte list \<Rightarrow> byte list \<Rightarrow> error + (int \<times> byte list)" where
  "repack_loop i nRows origRowWidth bufRowWidth inOffset outOffset cpuBuf out =
    (if i < nRows then
       (case memcpy out outOffset cpuBuf inOffset origRowWidth of
          Inl e \<Rightarrow> Inl e
        | Inr out' \<Rightarrow>
            if in_int (outOffset + origRowWidth) \<and> in_int (inOffset + bufRowWidth)
            then repack_loop (i + 1) nRows origRowWidth bufRowWidth
                   (inOffset + bufRowWidth) (outOffset + origRowWidth) cpuBuf out'
            else Inl SignedOverflow)
     else Inr (inOffset, out))"
  by pat_completeness auto
termination
  by (relation "measure (\<lambda>(i, nRows, origRowWidth, bufRowWidth, inOffset, outOffset, cpuBuf, out).
        nat (nRows - i))") auto

subsection \<open>The channel-repack shader pass\<close>

text \<open>
  \<^verbatim>\<open>createFunction\<close> writes the body of a fragment shader as text. The text is modelled
  by the list of its statements, in the order in which they are written to the stream
  (after \<^verbatim>\<open>void main() {\<close>):
  \<^descr> \<open>DeclOutCoord\<close> is \<^verbatim>\<open>ivec2 outCoord = ivec2(v_texCoord / u_outSize);\<close>
  \<^descr> \<open>DeclX0 ratio\<close> is \<^verbatim>\<open>int x0 = int(outCoord.x * ratio);\<close>
  \<^descr> \<open>DeclCol i\<close> is
    \<^verbatim>\<open>vecM col<i> = texelFetch(u_texture, ivec2(x0 + <i>, outCoord.y), 0).<swiz>;\<close>
    where \<^verbatim>\<open>vecM\<close> is \<^verbatim>\<open>getGlslVecType(img)\<close> and \<^verbatim>\<open>swiz\<close> is
    \<^verbatim>\<open>glsl::swizzleSubset(img.channels)\<close>
  \<^descr> \<open>AssignOut a i j\<close> is \<^verbatim>\<open>outValue.<fullSwiz[a]> = col<i>.<fullSwiz[j]>;\<close> with
    \<^verbatim>\<open>fullSwiz = "rgba"\<close>. The statement keeps the two indices into \<^verbatim>\<open>fullSwiz\<close>: an index
    above 3 names no component of a vector.
\<close>

datatype glsl_stmt =
    DeclOutCoord
  | DeclX0 int
  | DeclCol nat
  | AssignOut nat nat nat

definition fragmentShaderBody :: "image_shape \<Rightarrow> int \<Rightarrow> glsl_stmt list" where
  "fragmentShaderBody img targetChannels =
    (let ratio = targetChannels sdiv channels img
     in [DeclOutCoord, DeclX0 ratio] @
        concat (map (\<lambda>i. DeclCol i #
                       map (\<lambda>j. AssignOut (i * nat (channels img) + j) i j)
                         [0..<nat (channels img)])
                  [0..<nat ratio]))"

text \<open>
  The characters of the literal \<^verbatim>\<open>"rgba"\<close> are read at the two indices of an
  \<open>AssignOut\<close>. The literal has five characters, the last one the terminating zero:
  reading at an index above 4 is undefined behaviour.
\<close>

fun reads_inside_literal :: "glsl_stmt \<Rightarrow> bool" where
  "reads_inside_literal (AssignOut a i j) = (a \<le> 4 \<and> j \<le> 4)"
| "reads_inside_literal _ = True"

text \<open>
  \<^verbatim>\<open>createFunction(const Image &img, int targetChannels, int &targetWidth)\<close>: the result is
  the value left in \<^verbatim>\<open>targetWidth\<close> and the shader body captured by the returned builder.
\<close>

definition createFunction :: "image_shape \<Rightarrow> int \<Rightarrow> error + (int \<times> glsl_stmt list)" where
  "createFunction img targetChannels =
    (if \<not> in_int (channels img * width img) then Inl SignedOverflow
     else let origChannelsPerRow = channels img * width img
      in if \<not> channels img < targetChannels then Inl AssertionFailed
         else case c_mod targetChannels (channels img) of
           Inl e \<Rightarrow> Inl e
         | Inr r \<Rightarrow>
             if r \<noteq> 0 then Inl AssertionFailed
             else case c_div origChannelsPerRow targetChannels of
               Inl e \<Rightarrow> Inl e
             | Inr q \<Rightarrow>
                 (case c_mod origChannelsPerRow targetChannels of
                    Inl e \<Rightarrow> Inl e
                  | Inr m \<Rightarrow>
                      if m \<noteq> 0 \<and> \<not> in_int (q + 1) then Inl SignedOverflow
                      else let targetWidth = (if m \<noteq> 0 then q + 1 else q)
                       in if \<not> list_all reads_inside_literal
                                   (fragmentShaderBody img targetChannels)
                          then Inl OutOfBounds
                          else Inr (targetWidth, fragmentShaderBody img targetChannels)))"

subsection \<open>What the generated shader computes\<close>

text \<open>
  The inputs of one fragment: the interpolated \<^verbatim>\<open>v_texCoord\<close>, the uniform \<^verbatim>\<open>u_outSize\<close>
  and the source texture, read by \<^verbatim>\<open>texelFetch\<close> at integer texel coordinates (the list
  holds the components r, g, b, a of the texel). Exact rationals stand for the
  floating-point numbers of the GPU.
\<close>

record 'v fragment_input =
  v_texCoord :: "rat \<times> rat"
  u_outSize :: "rat \<times> rat"
  u_texture :: "int \<Rightarrow> int \<Rightarrow> 'v list"

record 'v fragment_state =
  outCoord :: "(int \<times> int) option"
  x0 :: "int option"
  col :: "nat \<Rightarrow> 'v list option"
  outValue :: "'v option list"

datatype shader_error = InvalidShader | FloatDivisionByZero

text \<open>The conversion of a float to an integer drops the fractional part.\<close>

definition float_to_int :: "rat \<Rightarrow> int" where
  "float_to_int r = (if 0 \<le> r then \<lfloor>r\<rfloor> else \<lceil>r\<rceil>)"

text \<open>
  One statement, for a source of \<open>M\<close> channels. The header that declares
  \<^verbatim>\<open>glsl::swizzleSubset\<close> and \<^verbatim>\<open>getGlslVecType\<close> is not part of the sources:
  \<^verbatim>\<open>swizzleSubset(M)\<close> is taken to be the first \<open>M\<close> letters of \<^verbatim>\<open>rgba\<close>, so that the
  swizzle selects the first \<open>M\<close> components of the texel, and \<^verbatim>\<open>getGlslVecType(img)\<close>
  to be the vector type of \<open>M\<close> components. A variable used before its declaration
  and a component that the vector does not have make the shader invalid (the compiler
  rejects it, and \<^verbatim>\<open>loadShader\<close> ends the process).
\<close>

fun exec_stmt ::
  "nat \<Rightarrow> 'v fragment_input \<Rightarrow> glsl_stmt \<Rightarrow> 'v fragment_state \<Rightarrow> shader_error + 'v fragment_state" where
  "exec_stmt M inp DeclOutCoord s =
    (if fst (u_outSize inp) = 0 \<or> snd (u_outSize inp) = 0 then Inl FloatDivisionByZero
     else Inr (s\<lparr>outCoord := Some (float_to_int (fst (v_texCoord inp) / fst (u_outSize inp)),
                                     float_to_int (snd (v_texCoord inp) / snd (u_outSize inp)))\<rparr>))"
| "exec_stmt M inp (DeclX0 ratio) s =
    (case outCoord s of
       None \<Rightarrow> Inl InvalidShader
     | Some oc \<Rightarrow> Inr (s\<lparr>x0 := Some (fst oc * ratio)\<rparr>))"
| "exec_stmt M inp (DeclCol i) s =
    (case (x0 s, outCoord s) of
       (Some x, Some oc) \<Rightarrow>
         Inr (s\<lparr>col := (col s)(i \<mapsto> take M (u_texture inp (x + int i) (snd oc)))\<rparr>)
     | _ \<Rightarrow> Inl InvalidShader)"
| "exec_stmt M inp (AssignOut a i j) s =
    (case col s i of
       None \<Rightarrow> Inl InvalidShader
     | Some v \<Rightarrow>
         if a < 4 \<and> a < length (outValue s) \<and> j < 4 \<and> j < length v
         then Inr (s\<lparr>outValue := (outValue s)[a := Some (v ! j)]\<rparr>)
         else Inl InvalidShader)"

fun exec_stmts ::
  "nat \<Rightarrow> 'v fragment_input \<Rightarrow> glsl_stmt list \<Rightarrow> 'v fragment_state \<Rightarrow> shader_error + 'v fragment_state" where
  "exec_stmts M inp [] s = Inr s"
| "exec_stmts M inp (st # sts) s =
    (case exec_stmt M inp st s of
       Inl e \<Rightarrow> Inl e
     | Inr s' \<Rightarrow> exec_stmts M inp sts s')"

text \<open>
  Running the body for one fragment, with an output vector of \<open>N\<close> components
  (\<^verbatim>\<open>layout(location = 0) out vecN outValue\<close>): the components of \<^verbatim>\<open>outValue\<close> at the end,
  \<open>None\<close> for a component that was never written.
\<close>

definition run_fragment ::
  "nat \<Rightarrow> nat \<Rightarrow> glsl_stmt list \<Rightarrow> 'v fragment_input \<Rightarrow> shader_error + 'v option list" where
  "run_fragment M N body inp =
    (case exec_stmts M inp body
            \<lparr>outCoord = None, x0 = None, col = Map.empty, outValue = replicate N None\<rparr> of
       Inl e \<Rightarrow> Inl e
     | Inr s \<Rightarrow> Inr (outValue s))"

text \<open>
  The fragment of the output pixel \<open>(px, py)\<close> of a \<open>W\<close> by \<open>H\<close> frame buffer. The quad of
  \<^verbatim>\<open>GlslFragmentShaderImplementation\<close> has the texture coordinates 0 and 1 at its corners
  and the viewport is the whole frame buffer (\<^verbatim>\<open>setViewport\<close>), so \<^verbatim>\<open>v_texCoord\<close> at the
  centre of the pixel is \<open>((px + 1/2) / W, (py + 1/2) / H)\<close>;
  \<^verbatim>\<open>GlslPipelineImplementation::call\<close> sets \<^verbatim>\<open>u_outSize\<close> to \<open>(W, H)\<close>.
\<close>

definition fragment_of_pixel ::
  "int \<Rightarrow> int \<Rightarrow> (int \<Rightarrow> int \<Rightarrow> 'v list) \<Rightarrow> int \<Rightarrow> int \<Rightarrow> 'v fragment_input" where
  "fragment_of_pixel W H tex px py =
    \<lparr>v_texCoord = ((of_int px + 1 / 2) / of_int W, (of_int py + 1 / 2) / of_int H),
     u_outSize = (of_int W, of_int H),
     u_texture = tex\<rparr>"

text \<open>
  The repack pass on the output pixel \<open>(px, py)\<close>: source image \<open>img\<close> with texels
  \<open>tex\<close>, target of \<open>targetChannels\<close> channels and of the width that \<^verbatim>\<open>createFunction\<close>
  computes.
\<close>

definition repack_pixel ::
  "image_shape \<Rightarrow> int \<Rightarrow> (int \<Rightarrow> int \<Rightarrow> 'v list) \<Rightarrow> int \<Rightarrow> int
     \<Rightarrow> error + (shader_error + 'v option list)" where
  "repack_pixel img targetChannels tex px py =
    (case createFunction img targetChannels of
       Inl e \<Rightarrow> Inl e
     | Inr (targetWidth, body) \<Rightarrow>
         Inr (run_fragment (nat (channels img)) (nat targetChannels) body
                (fragment_of_pixel targetWidth (height img) tex px py)))"

text \<open>
  The specification of the repack pass, in its own words: the values of the output pixel
  \<open>(px, py)\<close> are the concatenation of the \<open>M\<close> channel values of the \<open>k\<close> consecutive
  source pixels starting at \<open>px * k\<close>, in the row \<open>py\<close>. This definition is what the
  generated shader is compared with.
\<close>

definition concat_source_pixels ::
  "nat \<Rightarrow> nat \<Rightarrow> (int \<Rightarrow> int \<Rightarrow> 'v list) \<Rightarrow> int \<Rightarrow> int \<Rightarrow> 'v option list" where
  "concat_source_pixels M k tex px py =
    concat (map (\<lambda>i. map Some (take M (tex (px * int k + int i) py))) [0..<k])"

subsection \<open>The read adapter\<close>

text \<open>
  The struct \<^verbatim>\<open>Adapter\<close>. An empty \<^verbatim>\<open>std::function\<close> is \<open>None\<close>; the closure installed by
  \<^verbatim>\<open>setRepackFunction\<close> is given by the two integers it captures,
  \<open>(origRowWidth, bufRowWidth)\<close>. The intermediate image \<^verbatim>\<open>buffer\<close> lives on the GPU: the
  adapter holds its shape. The field \<^verbatim>\<open>function\<close>, the wrapped shader pass, is given by
  the shader body.
\<close>

record Adapter =
  cpuBuffer :: "byte list"
  cpuFunction :: "(int \<times> int) option"
  buffer :: image_shape
  shader_function :: "glsl_stmt list"

text \<open>\<^verbatim>\<open>std::vector::resize(n)\<close>: cut, or filled up with zero bytes.\<close>

definition resize :: "byte list \<Rightarrow> int \<Rightarrow> byte list" where
  "resize v n = take (nat n) v @ replicate (nat n - length v) 0"

text \<open>
  Calling the closure \<^verbatim>\<open>cpuFunction\<close> on the caller's buffer \<^verbatim>\<open>out\<close>: the loop, then
  \<^verbatim>\<open>assert(inOffset == int(buffer->size()))\<close>. A size that does not fit \<^verbatim>\<open>int\<close> is
  \<open>SignedOverflow\<close>.
\<close>

definition cpuFunction_call :: "Adapter \<Rightarrow> int \<times> int \<Rightarrow> byte list \<Rightarrow> error + byte list" where
  "cpuFunction_call a f out =
    (let origRowWidth = fst f; bufRowWidth = snd f; nRows = height (buffer a)
     in case repack_loop 0 nRows origRowWidth bufRowWidth 0 0 (cpuBuffer a) out of
          Inl e \<Rightarrow> Inl e
        | Inr (inOffset, out') \<Rightarrow>
            if \<not> in_int (size_bytes (buffer a)) then Inl SignedOverflow
            else if inOffset = size_bytes (buffer a) then Inr out'
            else Inl AssertionFailed)"

text \<open>
  \<^verbatim>\<open>Adapter::setRepackFunction(const Image &image)\<close>: the returned flag and the adapter
  after the call. The two row widths are stored in \<^verbatim>\<open>const int\<close>: a width that does not
  fit is \<open>SignedOverflow\<close>.
\<close>

definition setRepackFunction :: "Adapter \<Rightarrow> image_shape \<Rightarrow> error + (bool \<times> Adapter)" where
  "setRepackFunction a img =
    (if size_bytes (buffer a) = size_bytes img then Inr (False, a)
     else let a1 = a\<lparr>cpuBuffer := resize (cpuBuffer a) (size_bytes (buffer a))\<rparr>;
              origRowWidth = width img * bytesPerPixel img;
              bufRowWidth = width (buffer a) * bytesPerPixel (buffer a)
          in if \<not> (in_int origRowWidth \<and> in_int bufRowWidth) then Inl SignedOverflow
             else if \<not> origRowWidth < bufRowWidth then Inl AssertionFailed
             else Inr (True, a1\<lparr>cpuFunction := Some (origRowWidth, bufRowWidth)\<rparr>))"



datatype work = CpuCopy "int \<times> int"




text \<open>Running an enqueued unit of work on the caller's buffer.\<close>

fun run_work :: "Adapter \<Rightarrow> work \<Rightarrow> byte list \<Rightarrow> error + byte list" where
  "run_work a (CpuCopy f) outData = cpuFunction_call a f outData"

section \<open>opengl/adapters.cpp: the wrappers of the GPU objects\<close>

text \<open>
  The graphics context is the collaborator of every wrapper. Of its state the model
  keeps the three bindings that the wrappers change, the error flags that
  \<^verbatim>\<open>glGetError\<close> has not reported yet, the commands issued so far, in order, and the lines
  logged so far.
\<close>

datatype gl_command =
    GlDeleteTextures GLuint
  | GlDeleteFramebuffers GLuint
  | GlDeleteProgram GLuint
  | GlDeleteBuffers GLuint
  | GlBindTexture GLuint GLuint
  | GlBindFramebuffer GLuint
  | GlUseProgram GLuint

record gl_context =
  textureBinding :: "GLuint \<Rightarrow> GLuint"
  framebufferBinding :: GLuint
  currentProgram :: GLuint
  errorFlags :: "GLuint list"
  commands :: "gl_command list"
  logs :: "log_line list"

text \<open>Issuing one command: it is recorded, and a bind command changes its binding.\<close>

fun gl :: "gl_command \<Rightarrow> gl_context \<Rightarrow> gl_context" where
  "gl (GlBindTexture target t) c =
     c\<lparr>textureBinding := (textureBinding c)(target := t),
       commands := commands c @ [GlBindTexture target t]\<rparr>"
| "gl (GlBindFramebuffer f) c =
     c\<lparr>framebufferBinding := f, commands := commands c @ [GlBindFramebuffer f]\<rparr>"
| "gl (GlUseProgram p) c =
     c\<lparr>currentProgram := p, commands := commands c @ [GlUseProgram p]\<rparr>"
| "gl cmd c = c\<lparr>commands := commands c @ [cmd]\<rparr>"

text \<open>
  \<^verbatim>\<open>checkError(tag)\<close>: \<^verbatim>\<open>glGetError\<close> hands out the recorded flags one by one and then 0;
  each flag is logged (the tag is not kept in the logged line); after at least one flag
  the process is aborted.
\<close>

fun checkError_loop :: "GLuint list \<Rightarrow> log_line list \<Rightarrow> bool \<Rightarrow> GLuint list \<times> log_line list \<times> bool" where
  "checkError_loop [] lg any = ([], lg, any)"
| "checkError_loop (e # es) lg any =
     (if e = 0 then (es, lg, any)
      else checkError_loop es (lg @ [Error ''%s produced glError (0x%x)'' [e]]) True)"

definition checkError :: "gl_context \<Rightarrow> error + gl_context" where
  "checkError c =
    (case checkError_loop (errorFlags c) (logs c) False of
       (es, lg, any) \<Rightarrow>
         if any then Inl Aborted else Inr (c\<lparr>errorFlags := es, logs := lg\<rparr>))"

subsection \<open>The wrappers\<close>

record Texture =
  bindType :: GLuint
  tex_id :: GLuint

record FrameBuffer =
  fb_id :: GLuint
  texture :: Texture

record GlslProgram =
  program :: GLuint

record GlslFragmentShader =
  vertexBuffer :: GLuint
  vertexIndexBuffer :: GLuint
  aVertexData :: GLuint
  shader_program :: GlslProgram

subsection \<open>destroy\<close>

text \<open>\<^verbatim>\<open>TextureImplementation::destroy()\<close>.\<close>

definition Texture_destroy :: "Texture \<Rightarrow> gl_context \<Rightarrow> Texture \<times> gl_context" where
  "Texture_destroy t c =
    (let c1 = (if tex_id t \<noteq> 0 then gl (GlDeleteTextures (tex_id t)) c else c)
     in (t\<lparr>tex_id := 0\<rparr>, c1))"

text \<open>\<^verbatim>\<open>FrameBufferImplementation::destroy()\<close>.\<close>

definition FrameBuffer_destroy :: "FrameBuffer \<Rightarrow> gl_context \<Rightarrow> FrameBuffer \<times> gl_context" where
  "FrameBuffer_destroy f c =
    (let c1 = (if fb_id f \<noteq> 0 then gl (GlDeleteFramebuffers (fb_id f)) c else c);
         f1 = f\<lparr>fb_id := 0\<rparr>;
         (t, c2) = Texture_destroy (texture f1) c1
     in (f1\<lparr>texture := t\<rparr>, c2))"

text \<open>\<^verbatim>\<open>GlslProgramImplementation::destroy()\<close>.\<close>

definition GlslProgram_destroy :: "GlslProgram \<Rightarrow> gl_context \<Rightarrow> GlslProgram \<times> gl_context" where
  "GlslProgram_destroy p c =
    (if program p \<noteq> 0
     then (p\<lparr>program := 0\<rparr>, gl (GlDeleteProgram (program p)) c)
     else (p, c))"

text \<open>
  \<^verbatim>\<open>GlslFragmentShaderImplementation::destroy()\<close>: the two buffers are deleted when
  \<^verbatim>\<open>vertexBuffer\<close> is not zero, and neither field is assigned.
\<close>

definition GlslFragmentShader_destroy ::
  "GlslFragmentShader \<Rightarrow> gl_context \<Rightarrow> GlslFragmentShader \<times> gl_context" where
  "GlslFragmentShader_destroy s c =
    (let c1 = (if vertexBuffer s \<noteq> 0
               then gl (GlDeleteBuffers (vertexIndexBuffer s))
                      (gl (GlDeleteBuffers (vertexBuffer s)) c)
               else c);
         (p, c2) = GlslProgram_destroy (shader_program s) c1
     in (s\<lparr>shader_program := p\<rparr>, c2))"

text \<open>The commands that release a hardware object.\<close>

fun is_release :: "gl_command \<Rightarrow> bool" where
  "is_release (GlDeleteTextures _) = True"
| "is_release (GlDeleteFramebuffers _) = True"
| "is_release (GlDeleteProgram _) = True"
| "is_release (GlDeleteBuffers _) = True"
| "is_release _ = False"

subsection \<open>Finalization\<close>

text \<open>
  The destructors. A destructor that returns lets the process continue (\<open>Inr\<close>, with
  the context it leaves). After the body of \<^verbatim>\<open>~FrameBufferImplementation\<close> the member
  \<^verbatim>\<open>texture\<close> is finalized; \<^verbatim>\<open>GlslFragmentShaderImplementation\<close> has no destructor of its
  own, so that finalizing it finalizes the member \<^verbatim>\<open>program\<close>.
\<close>

definition Texture_finalize :: "Texture \<Rightarrow> gl_context \<Rightarrow> error + gl_context" where
  "Texture_finalize t c =
    (if tex_id t \<noteq> 0
     then Inr (c\<lparr>logs := logs c @ [Warn ''leaking GL texture'' []]\<rparr>)
     else Inr c)"

definition FrameBuffer_finalize :: "FrameBuffer \<Rightarrow> gl_context \<Rightarrow> error + gl_context" where
  "FrameBuffer_finalize f c =
    (let c1 = (if fb_id f \<noteq> 0
               then c\<lparr>logs := logs c @ [Warn ''leaking frame buffer %d'' [fb_id f]]\<rparr>
               else c)
     in Texture_finalize (texture f) c1)"

definition GlslProgram_finalize :: "GlslProgram \<Rightarrow> gl_context \<Rightarrow> error + gl_context" where
  "GlslProgram_finalize p c =
    (if program p \<noteq> 0
     then Inr (c\<lparr>logs := logs c @ [Warn ''leaking GL program %d'' [program p]]\<rparr>)
     else Inr c)"

definition GlslFragmentShader_finalize :: "GlslFragmentShader \<Rightarrow> gl_context \<Rightarrow> error + gl_context" where
  "GlslFragmentShader_finalize s c = GlslProgram_finalize (shader_program s) c"

subsection \<open>bind, unbind and the Binder\<close>

text \<open>\<^verbatim>\<open>GL_FRAMEBUFFER\<close> is the only frame buffer target used.\<close>

datatype Target =
    TextureTarget Texture
  | FrameBufferTarget FrameBuffer
  | ProgramTarget GlslProgram

fun bind :: "Target \<Rightarrow> gl_context \<Rightarrow> error + gl_context" where
  "bind (TextureTarget t) c = checkError (gl (GlBindTexture (bindType t) (tex_id t)) c)"
| "bind (FrameBufferTarget f) c = checkError (gl (GlBindFramebuffer (fb_id f)) c)"
| "bind (ProgramTarget p) c = Inr (gl (GlUseProgram (program p)) c)"

fun unbind :: "Target \<Rightarrow> gl_context \<Rightarrow> error + gl_context" where
  "unbind (TextureTarget t) c = checkError (gl (GlBindTexture (bindType t) 0) c)"
| "unbind (FrameBufferTarget f) c = checkError (gl (GlBindFramebuffer 0) c)"
| "unbind (ProgramTarget p) c = Inr (gl (GlUseProgram 0) c)"

text \<open>The binding of the context that a target's \<^verbatim>\<open>bind\<close> and \<^verbatim>\<open>unbind\<close> write.\<close>

fun binding_of :: "Target \<Rightarrow> gl_context \<Rightarrow> GLuint" where
  "binding_of (TextureTarget t) c = textureBinding c (bindType t)"
| "binding_of (FrameBufferTarget f) c = framebufferBinding c"
| "binding_of (ProgramTarget p) c = currentProgram c"

text \<open>
  A scope that holds a \<^verbatim>\<open>Binder\<close>: the constructor binds, the body of the scope runs,
  the destructor unbinds. A fatal outcome ends the process where it happens.
\<close>

definition Binder_scope ::
  "Target \<Rightarrow> (gl_context \<Rightarrow> error + gl_context) \<Rightarrow> gl_context \<Rightarrow> error + gl_context" where
  "Binder_scope target body c =
    (case bind target c of
       Inl e \<Rightarrow> Inl e
     | Inr c1 \<Rightarrow>
         (case body c1 of
            Inl e \<Rightarrow> Inl e
          | Inr c2 \<Rightarrow> unbind target c2))"

section \<open>Concrete inputs\<close>

text \<open>A context with nothing bound, no error flag and no command issued yet.\<close>

definition fresh_context :: gl_context where
  "fresh_context = \<lparr>textureBinding = (\<lambda>_. 0), framebufferBinding = 0, currentProgram = 0,
                     errorFlags = [], commands = [], logs = []\<rparr>"

text \<open>A fragment-shader runner with the buffers 1 and 2 and the program 3.\<close>

definition runner123 :: GlslFragmentShader where
  "runner123 = \<lparr>vertexBuffer = 1, vertexIndexBuffer = 2, aVertexData = 0,
                 shader_program = \<lparr>program = 3\<rparr>\<rparr>"

text \<open>A texture with the handle 7 on the target \<^verbatim>\<open>GL_TEXTURE_2D\<close> (0x0DE1).\<close>

definition texture7 :: Texture where
  "texture7 = \<lparr>bindType = 3553, tex_id = 7\<rparr>"

text \<open>A frame buffer with the handle 4 that owns this texture, and a program with the handle 3.\<close>

definition framebuffer4 :: FrameBuffer where
  "framebuffer4 = \<lparr>fb_id = 4, texture = texture7\<rparr>"

definition program3 :: GlslProgram where
  "program3 = \<lparr>program = 3\<rparr>"

text \<open>
  A context without error flags in which other objects are bound: the texture 5 to
  \<^verbatim>\<open>GL_TEXTURE_2D\<close>, the frame buffer 9 and the program 6.
\<close>

definition busy_context :: gl_context where
  "busy_context =
    \<lparr>textureBinding = (\<lambda>_. 0)(3553 := 5), framebufferBinding = 9, currentProgram = 6,
     errorFlags = [], commands = [], logs = []\<rparr>"

text \<open>A host image of 2 by 2 pixels with 2 channels of 2 bytes, as the factory creates it.\<close>

definition image_2x2 :: cpu_image where
  "image_2x2 = ImageImplementation 2 2 2 2"

text \<open>
  The adapter of a 3 by 2 image with 2 channels of one byte, after the raw read of the
  intermediate image (2 by 2 pixels, 4 channels) has filled its buffer with the bytes
  1 to 16: rows of 8 bytes, of which the first 6 are the logical row.
\<close>

definition adapter_3x2 :: Adapter where
  "adapter_3x2 =
    \<lparr>cpuBuffer = [1, 2, 3, 4, 5, 6, 7, 8, 9, 10, 11, 12, 13, 14, 15, 16],
     cpuFunction = Some (6, 8),
     buffer = \<lparr>width = 2, height = 2, channels = 4, bytesPerChannel = 1\<rparr>,
     shader_function =
       fragmentShaderBody \<lparr>width = 3, height = 2, channels = 2, bytesPerChannel = 1\<rparr> 4\<rparr>"



text \<open>
  A source image of 4 by 1 pixels with 2 channels, and a texture whose texel \<open>x\<close> holds
  \<open>2 * x\<close> and \<open>2 * x + 1\<close> in its two channels (\<^verbatim>\<open>texelFetch\<close> fills b and a with 0
  and 1).
\<close>

definition image_4x1 :: image_shape where
  "image_4x1 = \<lparr>width = 4, height = 1, channels = 2, bytesPerChannel = 1\<rparr>"

definition tex_row :: "int \<Rightarrow> int \<Rightarrow> int list" where
  "tex_row x y = [2 * x, 2 * x + 1, 0, 1]"

section \<open>Properties of the border policy\<close>

lemma applyBorder1D_in_range:
  "0 \<le> i \<Longrightarrow> i < sz \<Longrightarrow> applyBorder1D i sz border = Inr (True, i)"
  by (simp add: applyBorder1D_def)

lemma in_int_iff: "in_int v \<longleftrightarrow> - 2147483648 \<le> v \<and> v \<le> 2147483647"
  by (simp add: in_int_def INT_MIN_def INT_MAX_def)

lemma sdiv_nonneg: "0 \<le> a \<Longrightarrow> 0 \<le> b \<Longrightarrow> (a::int) sdiv b = a div b"
  by (simp add: signed_divide_int_def sgn_if)

lemma smod_nonneg: "0 \<le> a \<Longrightarrow> 0 \<le> b \<Longrightarrow> (a::int) smod b = a mod b"
  by (simp add: signed_modulo_int_def sgn_if)

lemma c_mod_nonneg:
  assumes "0 \<le> a" and "in_int a" and "0 < b"
  shows "c_mod a b = Inr (a mod b)"
proof -
  have "0 \<le> a div b" using assms by (simp add: pos_imp_zdiv_nonneg_iff)
  moreover have "a div b \<le> a div 1" using assms by (intro zdiv_mono2) simp_all
  ultimately have "in_int (a div b)" using assms(2) by (simp add: in_int_iff)
  then show ?thesis
    using assms by (simp add: c_mod_def sdiv_nonneg smod_nonneg)
qed

lemma c_div_nonneg:
  assumes "0 \<le> a" and "in_int a" and "0 < b"
  shows "c_div a b = Inr (a div b)"
proof -
  have "0 \<le> a div b" using assms by (simp add: pos_imp_zdiv_nonneg_iff)
  moreover have "a div b \<le> a div 1" using assms by (intro zdiv_mono2) simp_all
  ultimately have "in_int (a div b)" using assms(2) by (simp add: in_int_iff)
  then show ?thesis
    using assms by (simp add: c_div_def sdiv_nonneg)
qed

lemma applyBorder1D_WRAP_nonneg:
  assumes "0 \<le> i" and "in_int i" and "0 < sz"
  shows "applyBorder1D i sz WRAP = Inr (True, i mod sz)"
proof (cases "i < sz")
  case True
  with assms show ?thesis by (simp add: applyBorder1D_def)
next
  case False
  with assms show ?thesis
    by (simp add: applyBorder1D_def c_mod_nonneg)
qed

lemma applyBorder1D_WRAP_neg:
  assumes "i < 0" and "INT_MIN < i" and "0 < sz" and "in_int sz"
  shows "applyBorder1D i sz WRAP = Inr (True, sz - ((- i) mod sz))"
proof -
  have n: "in_int (- i)" "0 \<le> - i"
    using assms(1,2) by (simp_all add: in_int_iff INT_MIN_def)
  have m: "0 \<le> (- i) mod sz" "(- i) mod sz < sz" using assms(3) by simp_all
  have "in_int (sz - (- i) mod sz)"
    unfolding in_int_iff using m assms(3) assms(4) [unfolded in_int_iff] by linarith
  then show ?thesis
    using assms(1,3) n by (simp add: applyBorder1D_def c_mod_nonneg)
qed

text \<open>
  What WRAP does on a positive size, for a coordinate above \<open>INT_MIN\<close>: the result
  lies in \<open>[0, sz]\<close>, and it is \<open>sz\<close> itself, one past the last valid index, exactly for
  the negative multiples of \<open>sz\<close>.
\<close>

lemma applyBorder1D_WRAP_range:
  assumes "0 < sz" and "in_int sz" and "in_int i" and "INT_MIN < i"
  obtains j where "applyBorder1D i sz WRAP = Inr (True, j)" "0 \<le> j" "j \<le> sz"
    "j = sz \<longleftrightarrow> i < 0 \<and> sz dvd i"
proof (cases "i < 0")
  case True
  let ?j = "sz - ((- i) mod sz)"
  have m: "0 \<le> (- i) mod sz" "(- i) mod sz < sz" using assms(1) by simp_all
  have "(- i) mod sz = 0 \<longleftrightarrow> sz dvd i"
    by (simp add: mod_eq_0_iff_dvd)
  with m have "?j = sz \<longleftrightarrow> i < 0 \<and> sz dvd i" using True by auto
  moreover have "0 \<le> ?j" "?j \<le> sz" using m by simp_all
  ultimately show ?thesis
    using that applyBorder1D_WRAP_neg [OF True assms(4,1,2)] by blast
next
  case False
  then have nn: "0 \<le> i" by simp
  have "0 \<le> i mod sz" "i mod sz < sz" using assms(1) by simp_all
  then show ?thesis
    using that [of "i mod sz"] applyBorder1D_WRAP_nonneg [OF nn assms(3,1)] False by auto
qed

text \<open>
  C3. The claim: on an image of width and height at least 1, \<open>applyBorder\<close> with WRAP
  returns true and leaves \<open>x\<close> in \<open>[0, width)\<close> and \<open>y\<close> in \<open>[0, height)\<close>, for all
  integers \<open>x\<close> and \<open>y\<close>. The code breaks it at the negative multiples of the size: on a
  4 by 4 image, \<open>x = -4\<close> is rewritten to 4, which is not below the width, and the call
  still reports a valid sample.
\<close>

theorem applyBorder_WRAP_negative_multiple:
  "applyBorder \<lparr>width = 4, height = 4, channels = 1, bytesPerChannel = 1\<rparr> (- 4) 0 WRAP
     = Inr (True, 4, 0)"
  by (simp add: applyBorder_def applyBorder1D_def c_mod_def in_int_iff
        signed_modulo_int_def signed_divide_int_def)

text \<open>
  C8. For a coordinate \<open>i\<close> already inside \<open>[0, sz)\<close>: REPEAT and WRAP return it
  unchanged, so that applying the border a second time gives what applying it once
  gives; MIRROR returns it unchanged; ZERO returns it unchanged and reports it valid. A
  coordinate outside \<open>[0, sz)\<close> is reported invalid under ZERO.
\<close>

theorem applyBorder1D_inside_unchanged:
  "(0 \<le> i \<and> i < sz \<longrightarrow>
      applyBorder1D i sz REPEAT = Inr (True, i)
    \<and> applyBorder1D i sz WRAP = Inr (True, i)
    \<and> applyBorder1D_twice i sz REPEAT = applyBorder1D i sz REPEAT
    \<and> applyBorder1D_twice i sz WRAP = applyBorder1D i sz WRAP
    \<and> applyBorder1D i sz MIRROR = Inr (True, i)
    \<and> applyBorder1D i sz ZERO = Inr (True, i))
   \<and> (\<not> (0 \<le> i \<and> i < sz) \<longrightarrow> applyBorder1D i sz ZERO = Inr (False, i))"
proof (intro conjI impI)
  assume "\<not> (0 \<le> i \<and> i < sz)"
  then show "applyBorder1D i sz ZERO = Inr (False, i)"
    by (simp add: applyBorder1D_def)
qed (simp_all add: applyBorder1D_in_range applyBorder1D_twice_def)

theorem applyBorder1D_inside_unchanged_witness:
  "(0 \<le> (2::int) \<and> (2::int) < 5)
   \<and> applyBorder1D 2 5 REPEAT = Inr (True, 2)
   \<and> applyBorder1D 2 5 WRAP = Inr (True, 2)
   \<and> applyBorder1D_twice 2 5 REPEAT = applyBorder1D 2 5 REPEAT
   \<and> applyBorder1D_twice 2 5 WRAP = applyBorder1D 2 5 WRAP
   \<and> applyBorder1D 2 5 MIRROR = Inr (True, 2)
   \<and> applyBorder1D 2 5 ZERO = Inr (True, 2)
   \<and> \<not> (0 \<le> (7::int) \<and> (7::int) < 5)
   \<and> applyBorder1D 7 5 ZERO = Inr (False, 7)"
  using applyBorder1D_inside_unchanged [of 2 5] applyBorder1D_inside_unchanged [of 7 5]
  by simp

section \<open>Properties of the per-channel access\<close>

declare get_loop.simps [simp del] set_loop.simps [simp del]

text \<open>
  The vector of a host image has \<^verbatim>\<open>size()\<close> bytes: the constructor makes it so, and
  \<open>set\<close> keeps it so.
\<close>

lemma ImageImplementation_size:
  "length (data (ImageImplementation w h ch bpc))
     = nat (size_bytes (ImageImplementation w h ch bpc))"
  by (simp add: ImageImplementation_def size_bytes_def bytesPerPixel_def)

lemma set_loop_length:
  "set_loop i bpc offset dat src = Inr dat' \<Longrightarrow> length dat' = length dat"
proof (induction i bpc offset dat src rule: set_loop.induct)
  case (1 i bpc offset dat src)
  show ?case
  proof (cases "i < bpc")
    case False
    with "1.prems" show ?thesis by (simp add: set_loop.simps [of i])
  next
    case True
    show ?thesis
    proof (cases "0 \<le> int i + offset \<and> int i + offset < int (length dat) \<and> i < length src")
      case False
      with True "1.prems" show ?thesis by (simp add: set_loop.simps [of i])
    next
      case ok: True
      with True "1.prems"
      have "set_loop (i + 1) bpc offset (dat[nat (int i + offset) := src ! i]) src = Inr dat'"
        by (simp add: set_loop.simps [of i])
      from "1.IH" [OF True ok this] show ?thesis by simp
    qed
  qed
qed

lemma set_channel_keeps_size:
  assumes "set_channel img x y c src = Inr img'"
  shows "length (data img') = length (data img)" and "size_bytes img' = size_bytes img"
  using assms
  by (auto simp add: set_channel_def Let_def size_bytes_def bytesPerPixel_def
        split: if_splits sum.splits dest: set_loop_length)

lemma get_loop_result:
  assumes "nat offset + bpc \<le> length dat" and "bpc \<le> length tgt" and "i \<le> bpc"
    and "0 \<le> offset"
  shows "get_loop i bpc offset dat tgt
           = Inr (take i tgt @ take (bpc - i) (drop (nat offset + i) dat) @ drop bpc tgt)"
  using assms
proof (induction i bpc offset dat tgt rule: get_loop.induct)
  case (1 i bpc offset dat tgt)
  show ?case
  proof (cases "i < bpc")
    case False
    with "1.prems" have "i = bpc" by simp
    then show ?thesis by (simp add: get_loop.simps [of bpc])
  next
    case True
    let ?p = "nat offset + i"
    let ?v = "dat ! ?p"
    let ?tgt = "tgt[i := ?v]"
    from True "1.prems" have b: "?p < length dat" "i < length tgt" by simp_all
    have idx: "nat (int i + offset) = ?p" using "1.prems" by simp
    have ok: "0 \<le> int i + offset \<and> int i + offset < int (length dat) \<and> i < length tgt"
      using b "1.prems" by simp
    have ih: "get_loop (Suc i) bpc offset dat ?tgt
                = Inr (take (Suc i) ?tgt @ take (bpc - (Suc i)) (drop (Suc (nat offset + i)) dat)
                         @ drop bpc ?tgt)"
      using "1.IH" [OF True ok] "1.prems" True by (simp add: idx)
    have t: "take (Suc i) ?tgt = take i tgt @ [?v]"
      using b by (simp add: take_Suc_conv_app_nth)
    have d: "drop bpc ?tgt = drop bpc tgt"
      using True by simp
    have m: "take (bpc - i) (drop ?p dat) = ?v # take (bpc - (Suc i)) (drop (Suc (nat offset + i)) dat)"
    proof -
      have "drop ?p dat = ?v # drop (Suc ?p) dat"
        using b by (simp add: Cons_nth_drop_Suc)
      moreover have "bpc - i = Suc (bpc - (Suc i))" using True by simp
      ultimately show ?thesis by simp
    qed
    have "get_loop i bpc offset dat tgt = get_loop (Suc i) bpc offset dat ?tgt"
      using True ok by (simp add: get_loop.simps [of i] idx)
    then show ?thesis unfolding ih t d m by simp
  qed
qed

lemma set_loop_result:
  assumes "nat offset + bpc \<le> length dat" and "bpc \<le> length src" and "i \<le> bpc"
    and "0 \<le> offset"
  shows "set_loop i bpc offset dat src
           = Inr (take (nat offset + i) dat @ take (bpc - i) (drop i src)
                    @ drop (nat offset + bpc) dat)"
  using assms
proof (induction i bpc offset dat src rule: set_loop.induct)
  case (1 i bpc offset dat src)
  show ?case
  proof (cases "i < bpc")
    case False
    with "1.prems" have "i = bpc" by simp
    then show ?thesis by (simp add: set_loop.simps [of bpc])
  next
    case True
    let ?p = "nat offset + i"
    let ?v = "src ! i"
    let ?dat = "dat[?p := ?v]"
    from True "1.prems" have b: "?p < length dat" "i < length src" by simp_all
    have idx: "nat (int i + offset) = ?p" using "1.prems" by simp
    have ok: "0 \<le> int i + offset \<and> int i + offset < int (length dat) \<and> i < length src"
      using b "1.prems" by simp
    have ih: "set_loop (Suc i) bpc offset ?dat src
                = Inr (take (Suc (nat offset + i)) ?dat @ take (bpc - (Suc i)) (drop (Suc i) src)
                         @ drop (nat offset + bpc) ?dat)"
      using "1.IH" [OF True ok] "1.prems" True by (simp add: idx)
    have t: "take (Suc (nat offset + i)) ?dat = take ?p dat @ [?v]"
      using b by (simp add: take_Suc_conv_app_nth)
    have d: "drop (nat offset + bpc) ?dat = drop (nat offset + bpc) dat"
      using True by simp
    have m: "take (bpc - i) (drop i src) = ?v # take (bpc - (Suc i)) (drop (Suc i) src)"
    proof -
      have "drop i src = ?v # drop (Suc i) src"
        using b by (simp add: Cons_nth_drop_Suc)
      moreover have "bpc - i = Suc (bpc - (Suc i))" using True by simp
      ultimately show ?thesis by simp
    qed
    have "set_loop i bpc offset dat src = set_loop (Suc i) bpc offset ?dat src"
      using True ok by (simp add: set_loop.simps [of i] idx)
    then show ?thesis unfolding ih t d m by simp
  qed
qed


lemma offset_bounds:
  fixes x y c W H C B :: int
  assumes "0 \<le> x" "x < W" "0 \<le> y" "y < H" "0 \<le> c" "c < C" "0 < B"
  shows "0 \<le> (y * W + x) * C * B + c * B"
    and "(y * W + x) * C * B + c * B + B \<le> W * H * C * B"
proof -
  let ?p = "y * W + x"
  have W: "0 < W" and C: "0 < C" using assms by simp_all
  have p0: "0 \<le> ?p" using assms W by simp
  show "0 \<le> ?p * C * B + c * B" using p0 C assms by simp
  have "y * W \<le> (H - 1) * W"
    using assms W by (intro mult_right_mono) simp_all
  then have p1: "?p + 1 \<le> H * W" using assms by (simp add: algebra_simps)
  have "?p * C + c + 1 \<le> (?p + 1) * C" using assms by (simp add: algebra_simps)
  also have "\<dots> \<le> (H * W) * C"
    using p1 C by (intro mult_right_mono) simp_all
  finally have "(?p * C + c + 1) * B \<le> ((H * W) * C) * B"
    using assms by (intro mult_right_mono) simp_all
  then show "?p * C * B + c * B + B \<le> W * H * C * B"
    by (simp add: algebra_simps)
qed

lemma offset_steps:
  fixes x y c W H C B :: int
  assumes "0 \<le> x" "x < W" "0 \<le> y" "y < H" "0 \<le> c" "c < C" "0 < B"
  shows "0 \<le> y * W \<and> y * W \<le> W * H * C * B"
    and "0 \<le> y * W + x \<and> y * W + x \<le> W * H * C * B"
    and "0 \<le> (y * W + x) * C \<and> (y * W + x) * C \<le> W * H * C * B"
    and "0 \<le> (y * W + x) * C * B \<and> (y * W + x) * C * B \<le> W * H * C * B"
    and "0 \<le> c * B \<and> c * B \<le> W * H * C * B"
proof -
  let ?p = "y * W + x" and ?S = "W * H * C * B"
  have W: "0 < W" and C: "1 \<le> C" and B: "1 \<le> B" using assms by simp_all
  have a0: "0 \<le> y * W" using assms W by simp
  have p0: "0 \<le> ?p" using a0 assms by simp
  have c0: "0 \<le> ?p * C" using p0 C by simp
  have d0: "0 \<le> ?p * C * B" using c0 B by simp
  have e0: "0 \<le> c * B" using assms by simp
  have top: "?p * C * B + c * B + B \<le> ?S"
    using offset_bounds(2) [OF assms] .
  have "?p * 1 \<le> ?p * C" using p0 C by (intro mult_left_mono) simp_all
  then have pc: "?p \<le> ?p * C" by simp
  have "(?p * C) * 1 \<le> (?p * C) * B" using c0 B by (intro mult_left_mono) simp_all
  then have cd: "?p * C \<le> ?p * C * B" by simp
  show "0 \<le> y * W \<and> y * W \<le> ?S" using a0 assms(1) pc cd top e0 B by linarith
  show "0 \<le> ?p \<and> ?p \<le> ?S" using p0 pc cd top e0 B by linarith
  show "0 \<le> ?p * C \<and> ?p * C \<le> ?S" using c0 cd top e0 B by linarith
  show "0 \<le> ?p * C * B \<and> ?p * C * B \<le> ?S" using d0 top e0 B by linarith
  show "0 \<le> c * B \<and> c * B \<le> ?S" using e0 d0 top B by linarith
qed

lemma in_int_between: "0 \<le> v \<Longrightarrow> v \<le> S \<Longrightarrow> S \<le> INT_MAX \<Longrightarrow> in_int v"
  by (simp add: in_int_def INT_MIN_def)

text \<open>
  C7. On a host image whose vector has \<^verbatim>\<open>size()\<close> bytes, a number that fits the
  \<^verbatim>\<open>int\<close> in which the code computes offsets, for coordinates inside the image and a
  valid channel: \<open>set\<close> of a byte array returns, it stores the
  \<open>bytesPerChannel\<close> bytes of the array at the offset
  \<open>(y * width + x) * channels * bytesPerChannel + channel * bytesPerChannel\<close> and
  leaves every other byte as it was, and \<open>get\<close> at the same coordinates and channel
  then returns exactly these bytes.
\<close>

theorem set_then_get:
  assumes "length (data img) = nat (size_bytes img)"
    and "0 < bytesPerChannel img"
    and "0 \<le> x" and "x < width img" and "0 \<le> y" and "y < height img"
    and "0 \<le> c" and "c < channels img"
    and "nat (bytesPerChannel img) \<le> length src"
    and "nat (bytesPerChannel img) \<le> length tgt"
    and "size_bytes img \<le> INT_MAX"
  shows "let bpc = nat (bytesPerChannel img);
             off = nat ((y * width img + x) * channels img * bytesPerChannel img
                          + c * bytesPerChannel img);
             stored = take off (data img) @ take bpc src @ drop (off + bpc) (data img)
         in set_channel img x y c src = Inr (img\<lparr>data := stored\<rparr>)
            \<and> take bpc (drop off stored) = take bpc src
            \<and> get_channel (img\<lparr>data := stored\<rparr>) x y c tgt = Inr (take bpc src @ drop bpc tgt)"
proof -
  let ?B = "bytesPerChannel img"
  define ofs where "ofs = (y * width img + x) * channels img * ?B + c * ?B"
  define bpc where "bpc = nat ?B"
  define off where "off = nat ofs"
  define stored where "stored = take off (data img) @ take bpc src @ drop (off + bpc) (data img)"
  have o0: "0 \<le> ofs" and o1: "ofs + ?B \<le> width img * height img * channels img * ?B"
    unfolding ofs_def
    using offset_bounds [of x "width img" y "height img" c "channels img" ?B] assms by simp_all
  have "int (off + bpc) = ofs + ?B"
    using o0 assms(2) by (simp add: off_def bpc_def)
  also have "\<dots> \<le> size_bytes img"
    using o1 by (simp add: size_bytes_def bytesPerPixel_def algebra_simps)
  finally have fit: "off + bpc \<le> length (data img)"
    using assms(1) by linarith
  have src: "bpc \<le> length src" and tgt: "bpc \<le> length tgt"
    using assms(9,10) by (simp_all add: bpc_def)
  have ch: "0 \<le> c \<and> c < channels img" using assms by simp
  let ?S = "width img * height img * channels img * ?B"
  have S: "?S \<le> INT_MAX"
    using assms(11) by (simp add: size_bytes_def bytesPerPixel_def algebra_simps)
  note st = offset_steps [of x "width img" y "height img" c "channels img" ?B,
      OF assms(3) assms(4) assms(5) assms(6) assms(7) assms(8) assms(2)]
  have ii: "in_int (y * width img)" "in_int (y * width img + x)"
    "in_int ((y * width img + x) * channels img)"
    "in_int ((y * width img + x) * channels img * ?B)"
    "in_int (c * ?B)"
    using st S by (blast intro: in_int_between)+
  have "ofs \<le> ?S" using o1 assms(2) by simp
  with o0 have io: "in_int ofs" using S by (rule in_int_between)
  have idx: "index img x y = Inr ((y * width img + x) * channels img * ?B)"
    using ii by (simp add: index_def Let_def)
  have idx': "index (img\<lparr>data := stored\<rparr>) x y = Inr ((y * width img + x) * channels img * ?B)"
    using ii by (simp add: index_def Let_def)
  have s: "set_loop 0 bpc ofs (data img) src = Inr stored"
    using set_loop_result [of ofs bpc "data img" src 0] fit src o0
    by (simp add: stored_def off_def)
  have set_eq: "set_channel img x y c src = Inr (img\<lparr>data := stored\<rparr>)"
    using ch s ii(5) io by (simp add: set_channel_def idx Let_def ofs_def bpc_def)
  have len: "length (take off (data img)) = off" using fit by simp
  have rd: "take bpc (drop off stored) = take bpc src"
    unfolding stored_def using len src by simp
  have fit': "nat ofs + bpc \<le> length stored"
    unfolding stored_def using fit src by (simp add: off_def)
  have g: "get_loop 0 bpc ofs stored tgt = Inr (take bpc (drop off stored) @ drop bpc tgt)"
    using get_loop_result [OF fit' tgt _ o0, of 0] by (simp add: off_def)
  have "get_channel (img\<lparr>data := stored\<rparr>) x y c tgt = get_loop 0 bpc ofs stored tgt"
    using ch ii(5) io by (simp add: get_channel_def idx' Let_def ofs_def bpc_def)
  also have "\<dots> = Inr (take bpc src @ drop bpc tgt)"
    by (simp add: g rd)
  finally have get_eq:
    "get_channel (img\<lparr>data := stored\<rparr>) x y c tgt = Inr (take bpc src @ drop bpc tgt)" .
  show ?thesis
    unfolding Let_def
    using set_eq rd get_eq
    unfolding stored_def off_def bpc_def ofs_def by blast
qed


theorem set_then_get_witness:
  "length (data image_2x2) = nat (size_bytes image_2x2)
   \<and> 0 < bytesPerChannel image_2x2
   \<and> (0::int) \<le> 1 \<and> 1 < width image_2x2 \<and> 1 < height image_2x2 \<and> 1 < channels image_2x2
   \<and> nat (bytesPerChannel image_2x2) \<le> length [7, 9 :: byte]
   \<and> nat (bytesPerChannel image_2x2) \<le> length [0, 0 :: byte]
   \<and> size_bytes image_2x2 \<le> INT_MAX
   \<and> set_channel image_2x2 1 1 1 [7, 9]
       = Inr (image_2x2\<lparr>data := [0, 0, 0, 0, 0, 0, 0, 0, 0, 0, 0, 0, 0, 0, 7, 9]\<rparr>)
   \<and> get_channel (image_2x2\<lparr>data := [0, 0, 0, 0, 0, 0, 0, 0, 0, 0, 0, 0, 0, 0, 7, 9]\<rparr>)
         1 1 1 [0, 0]
       = Inr [7, 9]"
proof -
  have d: "data image_2x2 = [0, 0, 0, 0, 0, 0, 0, 0, 0, 0, 0, 0, 0, 0, 0, 0]"
    by (simp add: image_2x2_def ImageImplementation_def size_bytes_def bytesPerPixel_def
          numeral_eq_Suc)
  have f: "width image_2x2 = 2" "height image_2x2 = 2" "channels image_2x2 = 2"
    "bytesPerChannel image_2x2 = 2"
    by (simp_all add: image_2x2_def ImageImplementation_def)
  have h: "length (data image_2x2) = nat (size_bytes image_2x2)"
    by (simp add: d f size_bytes_def bytesPerPixel_def)
  from set_then_get [of image_2x2 1 1 1 "[7, 9]" "[0, 0]", OF h]
  have "set_channel image_2x2 1 1 1 [7, 9]
          = Inr (image_2x2\<lparr>data := [0, 0, 0, 0, 0, 0, 0, 0, 0, 0, 0, 0, 0, 0, 7, 9]\<rparr>)
        \<and> get_channel (image_2x2\<lparr>data := [0, 0, 0, 0, 0, 0, 0, 0, 0, 0, 0, 0, 0, 0, 7, 9]\<rparr>)
              1 1 1 [0, 0]
          = Inr [7, 9]"
    by (simp add: d f Let_def size_bytes_def bytesPerPixel_def INT_MAX_def)
  with h show ?thesis
    by (simp add: f size_bytes_def bytesPerPixel_def INT_MAX_def)
qed

text \<open>
  Beyond that bound the code has no defined result, and the model returns none: on an
  image of 16384 by 16384 pixels with 4 channels of 4 bytes, the offset of the last
  pixel does not fit the \<^verbatim>\<open>int\<close> that \<^verbatim>\<open>index\<close> returns.
\<close>

lemma index_overflow:
  "index \<lparr>width = 16384, height = 16384, channels = 4, bytesPerChannel = 4\<rparr> 16383 16383
     = Inl SignedOverflow"
  by (simp add: index_def Let_def in_int_iff)

section \<open>Properties of the repack pass\<close>

subsection \<open>The width of the intermediate image\<close>

lemma ceiling_div_cases:
  assumes "0 < (k::int)"
  shows "\<lceil>(of_int w :: rat) / of_int k\<rceil> = (if w mod k = 0 then w div k else w div k + 1)"
proof -
  have "\<lceil>(of_int w :: rat) / of_int k\<rceil> = - ((- w) div k)"
    by (rule ceiling_divide_eq_div)
  also have "\<dots> = (if w mod k = 0 then w div k else w div k + 1)"
    using assms by (simp add: zdiv_zminus1_eq_if)
  finally show ?thesis .
qed

lemma fragmentShaderBody_reads_inside:
  assumes "1 \<le> channels img" and "2 \<le> k" and "k * channels img \<le> 5"
  shows "list_all reads_inside_literal (fragmentShaderBody img (k * channels img))"
proof -
  let ?M = "nat (channels img)" and ?k = "nat k"
  have r: "(k * channels img) sdiv channels img = k"
    using assms by (simp add: sdiv_nonneg)
  have "int (?k * ?M) = k * channels img" using assms by simp
  then have b: "?k * ?M \<le> 5" using assms(3) by linarith
  have inside: "i * ?M + j \<le> 4 \<and> j \<le> 4" if "i < ?k" and "j < ?M" for i j
  proof -
    have "i * ?M + j < Suc i * ?M" using that by simp
    also have "\<dots> \<le> ?k * ?M" using that by (intro mult_le_mono1) simp
    finally have "i * ?M + j < 5" using b by simp
    then show ?thesis by simp
  qed
  show ?thesis
    unfolding list_all_iff fragmentShaderBody_def Let_def r
    using inside by auto
qed

text \<open>
  C4. For a source image of \<open>M \<ge> 1\<close> channels and width \<open>w \<ge> 0\<close> and a target of
  \<open>k * M\<close> channels with \<open>k \<ge> 2\<close>, \<^verbatim>\<open>createFunction\<close> returns, and the width it
  computes for the intermediate image is the ceiling of \<open>w / k\<close>. This holds where the
  code is defined: the channels of a row, \<open>M * w\<close>, fit the \<^verbatim>\<open>int\<close> in which they are
  counted, and the target has at most five channels, so that the literal \<^verbatim>\<open>"rgba"\<close> is
  read inside its five characters.
\<close>

theorem createFunction_targetWidth:
  assumes "1 \<le> channels img" and "2 \<le> k" and "0 \<le> width img"
    and "channels img * width img \<le> INT_MAX" and "k * channels img \<le> 5"
  shows "createFunction img (k * channels img)
           = Inr (\<lceil>(of_int (width img) :: rat) / of_int k\<rceil>,
                  fragmentShaderBody img (k * channels img))"
proof -
  let ?M = "channels img" and ?w = "width img"
  have pos: "0 < ?M" "0 < k" "0 < k * ?M" using assms by simp_all
  have lt: "?M < k * ?M" using assms by simp
  have nn: "0 \<le> ?M * ?w" "0 \<le> k * ?M" using assms pos by simp_all
  have io: "in_int (?M * ?w)"
    using nn(1) assms(4) by (simp add: in_int_def INT_MIN_def)
  have it: "in_int (k * ?M)"
    using nn(2) assms(5) by (simp add: in_int_iff)
  have m0: "c_mod (k * ?M) ?M = Inr 0"
    using c_mod_nonneg [OF nn(2) it pos(1)] by simp
  have "(?M * ?w) div (k * ?M) = ?w div k"
    using pos by (simp add: mult.commute [of k])
  then have d: "c_div (?M * ?w) (k * ?M) = Inr (?w div k)"
    using c_div_nonneg [OF nn(1) io pos(3)] by simp
  have "(?M * ?w) mod (?M * k) = ?M * (?w mod k)"
    by (rule mult_mod_right [symmetric])
  then have m: "c_mod (?M * ?w) (k * ?M) = Inr (?M * (?w mod k))"
    using c_mod_nonneg [OF nn(1) io pos(3)] by (simp add: mult.commute [of k])
  have "?w \<le> ?M * ?w" using assms(1,3) by (simp add: mult_le_cancel_right1)
  then have wmax: "?w \<le> INT_MAX" using assms(4) by simp
  have inc: "in_int (?w div k + 1)" if "?w mod k \<noteq> 0"
  proof -
    from that have "0 < ?w" using assms(3) by (cases "?w = 0") simp_all
    then have "?w div k < ?w" using assms(2) by (intro int_div_less_self) simp_all
    moreover have "0 \<le> ?w div k" using assms pos by (simp add: pos_imp_zdiv_nonneg_iff)
    ultimately show ?thesis using wmax by (simp add: in_int_def INT_MIN_def)
  qed
  have rd: "list_all reads_inside_literal (fragmentShaderBody img (k * ?M))"
    using assms(1,2,5) by (rule fragmentShaderBody_reads_inside)
  show ?thesis
    using lt io inc rd pos(1)
    by (simp add: createFunction_def Let_def m0 d m ceiling_div_cases [OF pos(2)])
qed

theorem createFunction_targetWidth_witness:
  "1 \<le> channels \<lparr>width = 5, height = 3, channels = 2, bytesPerChannel = 1\<rparr>
   \<and> (2::int) \<le> 2
   \<and> 0 \<le> width \<lparr>width = 5, height = 3, channels = 2, bytesPerChannel = 1\<rparr>
   \<and> channels \<lparr>width = 5, height = 3, channels = 2, bytesPerChannel = 1\<rparr>
         * width \<lparr>width = 5, height = 3, channels = 2, bytesPerChannel = 1\<rparr> \<le> INT_MAX
   \<and> 2 * channels \<lparr>width = 5, height = 3, channels = 2, bytesPerChannel = 1\<rparr> \<le> 5
   \<and> createFunction \<lparr>width = 5, height = 3, channels = 2, bytesPerChannel = 1\<rparr> 4
        = Inr (3, fragmentShaderBody \<lparr>width = 5, height = 3, channels = 2, bytesPerChannel = 1\<rparr> 4)"
proof -
  have c: "\<lceil>(5::rat) / 2\<rceil> = 3"
    using ceiling_div_cases [of 2 5] by simp
  show ?thesis
    using createFunction_targetWidth
            [of "\<lparr>width = 5, height = 3, channels = 2, bytesPerChannel = 1\<rparr>" 2]
    by (simp add: c INT_MAX_def)
qed

text \<open>
  Outside these bounds the code has no defined result, and the model returns none: a
  row of \<open>2 ^ 31\<close> channels overflows \<^verbatim>\<open>origChannelsPerRow\<close>, and a target of 8
  channels reads \<^verbatim>\<open>fullSwiz[7]\<close>.
\<close>

lemma createFunction_row_overflow:
  "createFunction \<lparr>width = 1073741824, height = 1, channels = 2, bytesPerChannel = 1\<rparr> 4
     = Inl SignedOverflow"
  by (simp add: createFunction_def in_int_iff)

lemma createFunction_literal_overrun:
  "createFunction \<lparr>width = 4, height = 1, channels = 4, bytesPerChannel = 1\<rparr> 8
     = Inl OutOfBounds"
  by (simp add: createFunction_def Let_def in_int_iff c_mod_def c_div_def
        fragmentShaderBody_def upt_rec)

subsection \<open>The generated shader\<close>

lemma upt_small:
  "[0..<2] = [0, 1]" "[0..<3] = [0, 1, 2]" "[0..<4] = [0, 1, 2, 3]"
  by (simp_all add: upt_rec)

lemma fragmentShaderBody_1_2:
  "channels img = 1 \<Longrightarrow> fragmentShaderBody img 2 =
     [DeclOutCoord, DeclX0 2, DeclCol 0, AssignOut 0 0 0, DeclCol 1, AssignOut 1 1 0]"
  by (simp add: fragmentShaderBody_def signed_divide_int_def upt_small)

lemma fragmentShaderBody_1_3:
  "channels img = 1 \<Longrightarrow> fragmentShaderBody img 3 =
     [DeclOutCoord, DeclX0 3, DeclCol 0, AssignOut 0 0 0, DeclCol 1, AssignOut 1 1 0,
      DeclCol 2, AssignOut 2 2 0]"
  by (simp add: fragmentShaderBody_def signed_divide_int_def upt_small)

lemma fragmentShaderBody_1_4:
  "channels img = 1 \<Longrightarrow> fragmentShaderBody img 4 =
     [DeclOutCoord, DeclX0 4, DeclCol 0, AssignOut 0 0 0, DeclCol 1, AssignOut 1 1 0,
      DeclCol 2, AssignOut 2 2 0, DeclCol 3, AssignOut 3 3 0]"
  by (simp add: fragmentShaderBody_def signed_divide_int_def upt_small)

lemma fragmentShaderBody_2_4:
  "channels img = 2 \<Longrightarrow> fragmentShaderBody img 4 =
     [DeclOutCoord, DeclX0 2, DeclCol 0, AssignOut 0 0 0, AssignOut 1 0 1,
      DeclCol 1, AssignOut 2 1 0, AssignOut 3 1 1]"
  by (simp add: fragmentShaderBody_def signed_divide_int_def upt_small)

lemma take_1_nth: "Suc 0 \<le> length xs \<Longrightarrow> take (Suc 0) xs = [xs ! 0]"
  by (cases xs) simp_all

lemma take_2_nth: "2 \<le> length xs \<Longrightarrow> take 2 xs = [xs ! 0, xs ! 1]"
  by (cases xs; cases "tl xs") simp_all

lemma replicate_small:
  "replicate 2 x = [x, x]" "replicate 3 x = [x, x, x]" "replicate 4 x = [x, x, x, x]"
  by (simp_all add: numeral_eq_Suc)


text \<open>
  What the generated statements compute from \<^verbatim>\<open>outCoord\<close>: for every pair of channel
  counts that a vector of at most four components allows, the output vector is the
  concatenation of the \<open>M\<close> channels of the \<open>k\<close> texels from \<open>outCoord.x * k\<close> on, in the
  row \<open>outCoord.y\<close>.
\<close>

lemma run_fragment_concat:
  fixes M k :: nat
  assumes "channels img = int M" and "1 \<le> M" and "2 \<le> k" and "k * M \<le> 4"
    and "fst (u_outSize inp) \<noteq> 0" and "snd (u_outSize inp) \<noteq> 0"
    and "\<forall>x y. M \<le> length (u_texture inp x y)"
  shows "run_fragment M (k * M) (fragmentShaderBody img (int (k * M))) inp
           = Inr (concat_source_pixels M k (u_texture inp)
                    (float_to_int (fst (v_texCoord inp) / fst (u_outSize inp)))
                    (float_to_int (snd (v_texCoord inp) / snd (u_outSize inp))))"
proof -
  have "M \<le> 2"
  proof (rule ccontr)
    assume "\<not> M \<le> 2"
    then have "3 \<le> M" by simp
    then have "2 * 3 \<le> k * M" using assms(3) by (intro mult_le_mono) simp_all
    with assms(4) show False by simp
  qed
  moreover have "k \<le> 4"
  proof (rule ccontr)
    assume "\<not> k \<le> 4"
    then have "5 \<le> k" by simp
    then have "5 * 1 \<le> k * M" using assms(2) by (intro mult_le_mono) simp_all
    with assms(4) show False by simp
  qed
  ultimately have "M = 1 \<or> M = 2" and "k = 2 \<or> k = 3 \<or> k = 4"
    using assms(2,3) by arith+
  moreover have "M = 2 \<Longrightarrow> k = 2" using assms(3,4) by simp
  ultimately consider "M = 1" "k = 2" | "M = 1" "k = 3" | "M = 1" "k = 4" | "M = 2" "k = 2"
    by blast
  then show ?thesis
  proof cases
    case 1
    with assms show ?thesis
      by (simp add: run_fragment_def fragmentShaderBody_1_2 concat_source_pixels_def
            upt_small replicate_small take_1_nth)
  next
    case 2
    with assms show ?thesis
      by (simp add: run_fragment_def fragmentShaderBody_1_3 concat_source_pixels_def
            upt_small replicate_small take_1_nth)
  next
    case 3
    with assms show ?thesis
      by (simp add: run_fragment_def fragmentShaderBody_1_4 concat_source_pixels_def
            upt_small replicate_small take_1_nth)
  next
    case 4
    with assms show ?thesis
      by (simp add: run_fragment_def fragmentShaderBody_2_4 concat_source_pixels_def
            upt_small replicate_small take_2_nth)
  qed
qed

text \<open>
  The value of \<^verbatim>\<open>outCoord\<close>: \<^verbatim>\<open>v_texCoord\<close> lies between 0 and 1 and is divided by the
  size of the output, so that both components are 0 at every pixel.
\<close>

lemma outCoord_component_zero:
  assumes "0 \<le> p" and "p < W"
  shows "float_to_int (((of_int p + 1 / 2) / of_int W) / of_int W) = 0"
proof -
  let ?q = "((of_int p + 1 / 2) / of_int W) / (of_int W :: rat)"
  have W: "(1::rat) \<le> of_int W" using assms by simp
  have n: "0 \<le> (of_int p :: rat) + 1 / 2" using assms by simp
  have "(of_int p :: rat) + 1 \<le> of_int W"
    using assms by (metis add.commute of_int_1 of_int_add of_int_le_iff zless_imp_add1_zle)
  then have u: "(of_int p :: rat) + 1 / 2 < of_int W" by simp
  have q0: "0 \<le> ?q" using n W by simp
  have "(of_int W :: rat) * 1 \<le> of_int W * of_int W"
    using W by (intro mult_left_mono) simp_all
  with u have "(of_int p :: rat) + 1 / 2 < of_int W * of_int W" by simp
  moreover have "(0::rat) < of_int W * of_int W" using W by simp
  ultimately have "((of_int p :: rat) + 1 / 2) / (of_int W * of_int W) < 1"
    by (simp only: divide_less_eq_1_pos)
  then have q1: "?q < 1" by simp
  have "\<lfloor>?q\<rfloor> = 0" using q0 q1 by (simp add: floor_eq_iff)
  with q0 show ?thesis by (simp add: float_to_int_def)
qed

lemma repack_pixel_origin:
  fixes M k :: nat
  assumes "channels img = int M" and "1 \<le> M" and "2 \<le> k" and "k * M \<le> 4"
    and "createFunction img (int (k * M)) = Inr (W, body)"
    and "0 \<le> px" and "px < W" and "0 \<le> py" and "py < height img"
    and "\<forall>x y. M \<le> length (tex x y)"
  shows "repack_pixel img (int (k * M)) tex px py
           = Inr (Inr (concat_source_pixels M k tex 0 0))"
proof -
  have body: "body = fragmentShaderBody img (int (k * M))"
    using assms(5)
    by (auto simp add: createFunction_def Let_def split: if_splits sum.splits)
  let ?inp = "fragment_of_pixel W (height img) tex px py"
  have nz: "fst (u_outSize ?inp) \<noteq> 0" "snd (u_outSize ?inp) \<noteq> 0"
    using assms(6-9) by (simp_all add: fragment_of_pixel_def)
  have tx: "\<forall>x y. M \<le> length (u_texture ?inp x y)"
    using assms(10) by (simp add: fragment_of_pixel_def)
  have ox: "float_to_int (fst (v_texCoord ?inp) / fst (u_outSize ?inp)) = 0"
    using outCoord_component_zero [OF assms(6,7)] by (simp add: fragment_of_pixel_def)
  have oy: "float_to_int (snd (v_texCoord ?inp) / snd (u_outSize ?inp)) = 0"
    using outCoord_component_zero [OF assms(8,9)] by (simp add: fragment_of_pixel_def)
  have "run_fragment M (k * M) body ?inp = Inr (concat_source_pixels M k tex 0 0)"
    using run_fragment_concat [OF assms(1-4) nz tx] ox oy
    by (simp add: body fragment_of_pixel_def del: of_nat_mult)
  then show ?thesis
    using assms(1,5) by (simp add: repack_pixel_def del: of_nat_mult)
qed

text \<open>
  C1. The claim: the output pixel \<open>(outputX, y)\<close> of the repack pass holds the channels of
  the \<open>k\<close> source pixels from \<open>outputX * k\<close> on, in row \<open>y\<close>. On a source row of 4 pixels
  with 2 channels, whose pixel \<open>x\<close> holds the values \<open>2 * x\<close> and \<open>2 * x + 1\<close>, repacked
  to 4 channels, the output pixel \<open>(1, 0)\<close> should hold 4, 5, 6, 7, the channels of the
  source pixels 2 and 3. The generated shader gives it 0, 1, 2, 3, the channels of the
  source pixels 0 and 1.
\<close>

theorem repack_pixel_second_output_pixel:
  "repack_pixel image_4x1 4 tex_row 1 0 = Inr (Inr [Some 0, Some 1, Some 2, Some 3])
   \<and> concat_source_pixels 2 2 tex_row 1 0 = [Some 4, Some 5, Some 6, Some 7]"
proof -
  have "repack_pixel image_4x1 (int (2 * 2)) tex_row 1 0
          = Inr (Inr (concat_source_pixels 2 2 tex_row 0 0))"
    by (rule repack_pixel_origin [where W = 2 and body = "fragmentShaderBody image_4x1 4"])
       (simp_all add: createFunction_def Let_def image_4x1_def tex_row_def in_int_iff
          c_mod_def c_div_def fragmentShaderBody_2_4)
  then show ?thesis
    by (simp add: concat_source_pixels_def tex_row_def upt_small)
qed

subsection \<open>Row compaction\<close>

declare repack_loop.simps [simp del]

lemma memcpy_nat:
  "memcpy dst (int d) src (int s) (int n) =
     (if d + n \<le> length dst \<and> s + n \<le> length src
      then Inr (take d dst @ take n (drop s src) @ drop (d + n) dst)
      else Inl OutOfBounds)"
  by (simp add: memcpy_def nat_add_distrib)

lemma repack_loop_rows:
  fixes i n orw brw :: nat
  assumes "i \<le> n" and "orw \<le> brw"
    and "n * brw \<le> length cpuBuf" and "n * orw \<le> length out"
    and "int (n * brw) \<le> INT_MAX"
  shows "repack_loop (int i) (int n) (int orw) (int brw) (int (i * brw)) (int (i * orw)) cpuBuf out
           = Inr (int (n * brw),
                  take (i * orw) out
                    @ concat (map (\<lambda>r. take orw (drop (r * brw) cpuBuf)) [i..<n])
                    @ drop (n * orw) out)"
  using assms
proof (induction "n - i" arbitrary: i out)
  case 0
  then have "i = n" by simp
  then show ?case by (simp add: repack_loop.simps [of "int n"])
next
  case (Suc m)
  then have lt: "i < n" by simp
  let ?row = "\<lambda>r. take orw (drop (r * brw) cpuBuf)"
  let ?out1 = "take (i * orw) out @ ?row i @ drop (i * orw + orw) out"
  have "Suc i * orw \<le> n * orw" using lt by (intro mult_le_mono1) simp
  then have o: "i * orw + orw \<le> length out" using Suc.prems by simp
  have "Suc i * brw \<le> n * brw" using lt by (intro mult_le_mono1) simp
  then have b: "i * brw + brw \<le> length cpuBuf" using Suc.prems by simp
  then have c: "i * brw + orw \<le> length cpuBuf" using Suc.prems by simp
  have copy: "memcpy out (int (i * orw)) cpuBuf (int (i * brw)) (int orw) = Inr ?out1"
    using o c by (simp add: memcpy_nat del: of_nat_mult of_nat_add)
  have lrow: "length (?row i) = orw" using c by simp
  have lpre: "length (take (i * orw) out) = i * orw" using o by simp
  have len1: "length ?out1 = length out" using o lrow lpre by simp
  have ih: "repack_loop (int (Suc i)) (int n) (int orw) (int brw)
              (int (Suc i * brw)) (int (Suc i * orw)) cpuBuf ?out1
            = Inr (int (n * brw),
                   take (Suc i * orw) ?out1 @ concat (map ?row [Suc i..<n]) @ drop (n * orw) ?out1)"
  proof (rule Suc.hyps(1))
    show "m = n - Suc i" using Suc.hyps(2) by simp
    show "Suc i \<le> n" using lt by simp
    show "orw \<le> brw" by (rule Suc.prems)
    show "n * brw \<le> length cpuBuf" by (rule Suc.prems)
    show "n * orw \<le> length ?out1" using len1 Suc.prems by simp
    show "int (n * brw) \<le> INT_MAX" by (rule Suc.prems)
  qed
  have t: "take (Suc i * orw) ?out1 = take (i * orw) out @ ?row i"
    using lrow lpre by simp
  have le: "i * orw + orw \<le> n * orw" using \<open>Suc i * orw \<le> n * orw\<close> by simp
  define pre where "pre = take (i * orw) out @ ?row i"
  define rest where "rest = drop (i * orw + orw) out"
  have lp: "length pre = i * orw + orw" unfolding pre_def using lrow lpre by simp
  have "drop (n * orw) (pre @ rest) = drop (n * orw - (i * orw + orw)) rest"
    using lp le by simp
  also have "\<dots> = drop (n * orw) out"
    unfolding rest_def drop_drop using le by simp
  finally have d: "drop (n * orw) ?out1 = drop (n * orw) out"
    unfolding pre_def rest_def by simp
  have u: "[i..<n] = i # [Suc i..<n]" using lt by (rule upt_conv_Cons)
  have step: "repack_loop (int i) (int n) (int orw) (int brw) (int (i * brw)) (int (i * orw)) cpuBuf out
              = repack_loop (int (Suc i)) (int n) (int orw) (int brw)
                  (int (Suc i * brw)) (int (Suc i * orw)) cpuBuf ?out1"
  proof -
    have a: "int i + 1 = int (Suc i)"
      "int (i * brw) + int brw = int (Suc i * brw)"
      "int (i * orw) + int orw = int (Suc i * orw)"
      by (simp_all add: algebra_simps)
    have "Suc i * orw \<le> Suc i * brw" using Suc.prems(2) by (intro mult_le_mono2)
    with \<open>Suc i * brw \<le> n * brw\<close> Suc.prems(5)
    have "int (Suc i * brw) \<le> INT_MAX" "int (Suc i * orw) \<le> INT_MAX"
      by linarith+
    then have fits: "in_int (int (Suc i * orw))" "in_int (int (Suc i * brw))"
      by (simp_all add: in_int_def INT_MIN_def del: of_nat_mult of_nat_add of_nat_Suc)
    show ?thesis
      using lt fits
      by (simp add: repack_loop.simps [of "int i"] copy a del: of_nat_mult of_nat_add of_nat_Suc)
  qed
  show ?case
    unfolding step ih t d u by simp
qed


lemma length_concat_rows:
  "\<forall>r<h. length (f r) = m \<Longrightarrow> length (concat (map f [0..<h])) = h * m"
  by (induction h) simp_all

lemma concat_rows_row:
  assumes "\<forall>r<h. length (f r) = m" and "i < h"
  shows "take m (drop (i * m) (concat (map f [0..<h]) @ rest)) = f i"
  using assms
proof (induction h arbitrary: rest)
  case 0
  then show ?case by simp
next
  case (Suc h)
  then have l: "\<forall>r<h. length (f r) = m" and lh: "length (f h) = m" by simp_all
  show ?case
  proof (cases "i < h")
    case True
    from Suc.IH [OF l True, of "f h @ rest"] show ?thesis by simp
  next
    case False
    with Suc.prems have "i = h" by simp
    then show ?thesis
      using length_concat_rows [OF l] lh by simp
  qed
qed

text \<open>
  C2. For an intermediate buffer of \<open>h\<close> rows with a row stride of \<open>brw\<close> bytes and a
  logical row of \<open>orw < brw\<close> bytes, of a size \<open>h * brw\<close> that fits the \<^verbatim>\<open>int\<close> in
  which the code counts its offsets, the row compaction returns, and the caller's buffer
  then starts with \<open>h\<close> rows of \<open>orw\<close> bytes each, one after the other, row \<open>i\<close> being
  the first \<open>orw\<close> bytes found at the offset \<open>i * brw\<close> of the intermediate buffer. No
  byte of the padding of a row is copied, and the caller's buffer is unchanged behind
  the \<open>h\<close> rows.
\<close>

theorem cpuFunction_call_compacts:
  fixes h orw brw :: nat
  assumes "orw < brw"
    and "height (buffer a) = int h"
    and "size_bytes (buffer a) = int (h * brw)"
    and "length (cpuBuffer a) = h * brw"
    and "h * orw \<le> length out"
    and "int (h * brw) \<le> INT_MAX"
  shows "let row = (\<lambda>i. take orw (drop (i * brw) (cpuBuffer a)));
             out' = concat (map row [0..<h]) @ drop (h * orw) out
         in cpuFunction_call a (int orw, int brw) out = Inr out'
            \<and> length out' = length out
            \<and> (\<forall>i<h. length (row i) = orw \<and> take orw (drop (i * orw) out') = row i)"
proof -
  define row where "row = (\<lambda>i. take orw (drop (i * brw) (cpuBuffer a)))"
  define out' where "out' = concat (map row [0..<h]) @ drop (h * orw) out"
  have lrow: "\<forall>i<h. length (row i) = orw"
  proof (intro allI impI)
    fix i assume "i < h"
    then have "Suc i * brw \<le> h * brw" by (intro mult_le_mono1) simp
    then have "i * brw + orw \<le> length (cpuBuffer a)" using assms(1,4) by simp
    then show "length (row i) = orw" by (simp add: row_def)
  qed
  have loop: "repack_loop 0 (int h) (int orw) (int brw) 0 0 (cpuBuffer a) out
                = Inr (int (h * brw), out')"
    using repack_loop_rows [of 0 h orw brw "cpuBuffer a" out] assms
    by (simp add: out'_def row_def)
  have call: "cpuFunction_call a (int orw, int brw) out = Inr out'"
  proof -
    have "in_int (size_bytes (buffer a))"
      using assms(3,6) by (simp add: in_int_def INT_MIN_def del: of_nat_mult)
    then show ?thesis
      using loop assms(2,3) by (simp add: cpuFunction_call_def Let_def del: of_nat_mult)
  qed
  have len: "length out' = length out"
    using length_concat_rows [OF lrow] assms(5) by (simp add: out'_def)
  have rows: "\<forall>i<h. take orw (drop (i * orw) out') = row i"
    unfolding out'_def using concat_rows_row [OF lrow] by blast
  show ?thesis
    unfolding Let_def
    using call len lrow rows
    unfolding out'_def row_def by blast
qed

theorem cpuFunction_call_compacts_witness:
  "(6::nat) < 8
   \<and> height (buffer adapter_3x2) = int 2
   \<and> size_bytes (buffer adapter_3x2) = int (2 * 8)
   \<and> length (cpuBuffer adapter_3x2) = 2 * 8
   \<and> 2 * 6 \<le> length [0, 0, 0, 0, 0, 0, 0, 0, 0, 0, 0, 0, 0 :: byte]
   \<and> int (2 * 8) \<le> INT_MAX
   \<and> cpuFunction_call adapter_3x2 (6, 8) [0, 0, 0, 0, 0, 0, 0, 0, 0, 0, 0, 0, 0]
       = Inr [1, 2, 3, 4, 5, 6, 9, 10, 11, 12, 13, 14, 0]"
proof -
  have h: "height (buffer adapter_3x2) = int 2"
    "size_bytes (buffer adapter_3x2) = int (2 * 8)"
    "length (cpuBuffer adapter_3x2) = 2 * 8"
    by (simp_all add: adapter_3x2_def size_bytes_def bytesPerPixel_def)
  have u: "[0..<2] = [0, 1]"
    by (simp add: upt_rec)
  have c: "cpuBuffer adapter_3x2 = [1, 2, 3, 4, 5, 6, 7, 8, 9, 10, 11, 12, 13, 14, 15, 16]"
    by (simp add: adapter_3x2_def)
  from cpuFunction_call_compacts
         [of 6 8 adapter_3x2 2 "[0, 0, 0, 0, 0, 0, 0, 0, 0, 0, 0, 0, 0]", OF _ h]
  have "cpuFunction_call adapter_3x2 (6, 8) [0, 0, 0, 0, 0, 0, 0, 0, 0, 0, 0, 0, 0]
          = Inr [1, 2, 3, 4, 5, 6, 9, 10, 11, 12, 13, 14, 0]"
    by (simp add: Let_def c u INT_MAX_def)
  with h show ?thesis by (simp add: INT_MAX_def)
qed

subsection \<open>The read adapter\<close>



text \<open>
  The closure that \<^verbatim>\<open>setRepackFunction\<close> installs meets what the row compaction needs:
  run on the raw bytes of the intermediate image, it returns and leaves the compacted
  rows in the caller's buffer.
\<close>

lemma installed_closure_compacts:
  assumes "setRepackFunction a0 img = Inr (True, a)"
    and "0 \<le> width img * bytesPerPixel img"
    and "0 \<le> height (buffer a0)"
    and "length raw = nat (size_bytes (buffer a0))"
    and "nat (height (buffer a0)) * nat (width img * bytesPerPixel img) \<le> length out"
    and "size_bytes (buffer a0) \<le> INT_MAX"
  shows "\<exists>orw brw. cpuFunction a = Some (int orw, int brw) \<and> orw < brw
           \<and> run_work (a\<lparr>cpuBuffer := raw\<rparr>) (CpuCopy (int orw, int brw)) out
               = Inr (concat (map (\<lambda>i. take orw (drop (i * brw) raw))
                                [0..<nat (height (buffer a0))])
                        @ drop (nat (height (buffer a0)) * orw) out)"
proof -
  let ?o = "width img * bytesPerPixel img"
  let ?b = "width (buffer a0) * bytesPerPixel (buffer a0)"
  define h where "h = nat (height (buffer a0))"
  define orw where "orw = nat ?o"
  define brw where "brw = nat ?b"
  from assms(1) have lt: "?o < ?b" and f: "cpuFunction a = Some (?o, ?b)"
    and buf: "buffer a = buffer a0"
    by (auto simp add: setRepackFunction_def Let_def split: if_splits)
  have io: "int orw = ?o" and ib: "int brw = ?b" and ih: "int h = height (buffer a0)"
    using assms(2,3) lt by (simp_all add: orw_def brw_def h_def)
  have lt': "orw < brw" using lt assms(2) by (simp add: orw_def brw_def)
  have "size_bytes (buffer a0) = int h * int brw"
    by (simp add: size_bytes_def ih ib algebra_simps)
  then have sz: "size_bytes (buffer a0) = int (h * brw)" by simp
  then have lr: "h * brw \<le> length raw" using assms(4) by (simp del: of_nat_mult)
  have lo: "h * orw \<le> length out" using assms(5) by (simp add: h_def orw_def)
  have mx: "int (h * brw) \<le> INT_MAX" using sz assms(6) by (simp del: of_nat_mult)
  have fits: "in_int (size_bytes (buffer a0))"
    using sz mx by (simp add: in_int_def INT_MIN_def del: of_nat_mult)
  have "repack_loop (int 0) (int h) (int orw) (int brw) (int (0 * brw)) (int (0 * orw)) raw out
          = Inr (int (h * brw),
                 take (0 * orw) out
                   @ concat (map (\<lambda>r. take orw (drop (r * brw) raw)) [0..<h])
                   @ drop (h * orw) out)"
    using lt' lr lo mx by (intro repack_loop_rows) simp_all
  then have loop: "repack_loop 0 (int h) (int orw) (int brw) 0 0 raw out
          = Inr (int (h * brw),
                 concat (map (\<lambda>r. take orw (drop (r * brw) raw)) [0..<h]) @ drop (h * orw) out)"
    by simp
  have "run_work (a\<lparr>cpuBuffer := raw\<rparr>) (CpuCopy (int orw, int brw)) out
          = Inr (concat (map (\<lambda>i. take orw (drop (i * brw) raw)) [0..<h]) @ drop (h * orw) out)"
    using loop sz fits
    by (simp add: cpuFunction_call_def Let_def buf ih [symmetric] del: of_nat_mult)
  moreover have "cpuFunction a = Some (int orw, int brw)" using f io ib by simp
  ultimately show ?thesis using lt' unfolding h_def by blast
qed




section \<open>Properties of the wrappers\<close>

subsection \<open>destroy\<close>

lemma Texture_destroy_twice:
  "Texture_destroy t c = (t', c') \<Longrightarrow>
     tex_id t' = 0 \<and> Texture_destroy t' c' = (t', c')"
  by (auto simp add: Texture_destroy_def Let_def)

lemma GlslProgram_destroy_twice:
  "GlslProgram_destroy p c = (p', c') \<Longrightarrow>
     program p' = 0 \<and> GlslProgram_destroy p' c' = (p', c')"
  by (auto simp add: GlslProgram_destroy_def split: if_splits)

lemma FrameBuffer_destroy_twice:
  assumes "FrameBuffer_destroy f c = (f', c')"
  shows "fb_id f' = 0 \<and> tex_id (texture f') = 0 \<and> FrameBuffer_destroy f' c' = (f', c')"
  using assms
  by (auto simp add: FrameBuffer_destroy_def Texture_destroy_def Let_def)

text \<open>
  C5. The claim: for every wrapper, the fragment-shader runner among them, the handle is
  zero after \<open>destroy\<close> and a second \<open>destroy\<close> releases nothing. That holds for the
  texture, the frame buffer and the program (the three lemmas above). The runner with
  the buffers 1 and 2 and the program 3 keeps both buffer handles after \<open>destroy\<close>, and
  its second \<open>destroy\<close> issues \<^verbatim>\<open>glDeleteBuffers\<close> for both again.
\<close>

theorem GlslFragmentShader_destroy_twice_releases_again:
  "vertexBuffer (fst (GlslFragmentShader_destroy runner123 fresh_context)) = 1
   \<and> vertexIndexBuffer (fst (GlslFragmentShader_destroy runner123 fresh_context)) = 2
   \<and> commands (snd (GlslFragmentShader_destroy runner123 fresh_context))
       = [GlDeleteBuffers 1, GlDeleteBuffers 2, GlDeleteProgram 3]
   \<and> commands (snd (GlslFragmentShader_destroy
                      (fst (GlslFragmentShader_destroy runner123 fresh_context))
                      (snd (GlslFragmentShader_destroy runner123 fresh_context))))
       = [GlDeleteBuffers 1, GlDeleteBuffers 2, GlDeleteProgram 3,
          GlDeleteBuffers 1, GlDeleteBuffers 2]
   \<and> is_release (GlDeleteBuffers 1)"
  by (simp add: GlslFragmentShader_destroy_def GlslProgram_destroy_def runner123_def
        fresh_context_def Let_def)

subsection \<open>Finalization\<close>

text \<open>
  C9. Finalizing a texture, a frame buffer or a program never aborts: the process
  continues. When the handle is not zero, the context it continues with has one more
  line in its log, the warning of the leak (for a frame buffer, followed by the warning
  of its texture when that leaks too).
\<close>

theorem finalize_warns_and_continues:
  "(\<exists>c'. Texture_finalize t c = Inr c'
          \<and> (tex_id t \<noteq> 0 \<longrightarrow> logs c' = logs c @ [Warn ''leaking GL texture'' []]))
   \<and> (\<exists>c'. FrameBuffer_finalize f c = Inr c'
          \<and> (fb_id f \<noteq> 0 \<longrightarrow>
                logs c' = logs c @ Warn ''leaking frame buffer %d'' [fb_id f]
                            # (if tex_id (texture f) \<noteq> 0
                               then [Warn ''leaking GL texture'' []] else [])))
   \<and> (\<exists>c'. GlslProgram_finalize p c = Inr c'
          \<and> (program p \<noteq> 0 \<longrightarrow>
                logs c' = logs c @ [Warn ''leaking GL program %d'' [program p]]))"
  by (simp add: Texture_finalize_def FrameBuffer_finalize_def GlslProgram_finalize_def Let_def)

theorem finalize_warns_and_continues_witness:
  "tex_id texture7 \<noteq> 0
   \<and> Texture_finalize texture7 fresh_context
       = Inr (fresh_context\<lparr>logs := [Warn ''leaking GL texture'' []]\<rparr>)
   \<and> fb_id \<lparr>fb_id = 4, texture = texture7\<rparr> \<noteq> 0
   \<and> FrameBuffer_finalize \<lparr>fb_id = 4, texture = texture7\<rparr> fresh_context
       = Inr (fresh_context\<lparr>logs := [Warn ''leaking frame buffer %d'' [4],
                                       Warn ''leaking GL texture'' []]\<rparr>)
   \<and> program \<lparr>program = 3\<rparr> \<noteq> 0
   \<and> GlslProgram_finalize \<lparr>program = 3\<rparr> fresh_context
       = Inr (fresh_context\<lparr>logs := [Warn ''leaking GL program %d'' [3]]\<rparr>)"
  using finalize_warns_and_continues
          [of texture7 fresh_context "\<lparr>fb_id = 4, texture = texture7\<rparr>" "\<lparr>program = 3\<rparr>"]
  by (simp add: Texture_finalize_def FrameBuffer_finalize_def GlslProgram_finalize_def
        Let_def texture7_def fresh_context_def)

subsection \<open>unbind\<close>

lemma checkError_keeps_bindings:
  assumes "checkError c = Inr c'"
  shows "textureBinding c' = textureBinding c"
    and "framebufferBinding c' = framebufferBinding c"
    and "currentProgram c' = currentProgram c"
    and "commands c' = commands c"
  using assms by (auto simp add: checkError_def split: prod.splits if_splits)

lemma checkError_no_flags: "errorFlags c = [] \<Longrightarrow> checkError c = Inr c"
  by (simp add: checkError_def)

lemma gl_errorFlags: "errorFlags (gl cmd c) = errorFlags c"
  by (cases cmd) simp_all

lemma unbind_binding:
  "unbind target c = Inr c' \<Longrightarrow> binding_of target c' = 0"
  by (cases target) (auto dest: checkError_keeps_bindings)

lemma unbind_command:
  "unbind target c = Inr c' \<Longrightarrow>
     commands c' = commands c @
       [case target of
          TextureTarget t \<Rightarrow> GlBindTexture (bindType t) 0
        | FrameBufferTarget f \<Rightarrow> GlBindFramebuffer 0
        | ProgramTarget p \<Rightarrow> GlUseProgram 0]"
  by (cases target) (auto dest: checkError_keeps_bindings)

text \<open>Without a pending error flag, \<open>bind\<close> and \<open>unbind\<close> return.\<close>

lemma bind_returns:
  assumes "errorFlags c = []"
  shows "\<exists>c1. bind target c = Inr c1 \<and> errorFlags c1 = []"
  using assms by (cases target) (simp_all add: checkError_no_flags gl_errorFlags)

lemma unbind_returns:
  assumes "errorFlags c = []"
  shows "\<exists>c1. unbind target c = Inr c1 \<and> binding_of target c1 = 0"
proof -
  have "\<exists>c1. unbind target c = Inr c1"
    using assms by (cases target) (simp_all add: checkError_no_flags gl_errorFlags)
  then show ?thesis using unbind_binding by blast
qed

text \<open>
  C10. The \<open>unbind\<close> of a texture, a frame buffer or a program always resets the binding
  to the null object 0, whatever was bound before: with no error flag pending it
  returns, with the binding at 0 (the \<open>unbind\<close> of a program returns in every context),
  and whenever it returns the binding is 0. So a \<open>Binder\<close> scope leaves the binding at 0
  and does not restore it: whenever the scope returns the binding is 0, and differs from
  the object that was bound before the scope; and the scope does return when no error
  flag is pending and its body returns without leaving one.
\<close>

theorem unbind_clears_binding:
  "(errorFlags c = [] \<longrightarrow> (\<exists>c1. unbind target c = Inr c1 \<and> binding_of target c1 = 0))
   \<and> (\<exists>c1. unbind (ProgramTarget p) c = Inr c1 \<and> binding_of (ProgramTarget p) c1 = 0)
   \<and> (unbind target c = Inr c' \<longrightarrow> binding_of target c' = 0)
   \<and> (Binder_scope target body c = Inr c'' \<longrightarrow>
        binding_of target c'' = 0
        \<and> (binding_of target c \<noteq> 0 \<longrightarrow> binding_of target c'' \<noteq> binding_of target c))
   \<and> (errorFlags c = []
        \<and> (\<forall>d. errorFlags d = [] \<longrightarrow> (\<exists>d'. body d = Inr d' \<and> errorFlags d' = []))
        \<longrightarrow> (\<exists>c2. Binder_scope target body c = Inr c2 \<and> binding_of target c2 = 0))"
proof (intro conjI impI)
  assume "errorFlags c = []"
  then show "\<exists>c1. unbind target c = Inr c1 \<and> binding_of target c1 = 0"
    by (rule unbind_returns)
next
  show "\<exists>c1. unbind (ProgramTarget p) c = Inr c1 \<and> binding_of (ProgramTarget p) c1 = 0"
    by simp
next
  assume "unbind target c = Inr c'"
  then show "binding_of target c' = 0" by (rule unbind_binding)
next
  assume s: "Binder_scope target body c = Inr c''"
  then obtain c2 where "unbind target c2 = Inr c''"
    by (auto simp add: Binder_scope_def split: sum.splits)
  then show z: "binding_of target c'' = 0" by (rule unbind_binding)
  assume "binding_of target c \<noteq> 0"
  with z show "binding_of target c'' \<noteq> binding_of target c" by simp
next
  assume a: "errorFlags c = []
    \<and> (\<forall>d. errorFlags d = [] \<longrightarrow> (\<exists>d'. body d = Inr d' \<and> errorFlags d' = []))"
  then obtain c1 where b: "bind target c = Inr c1" "errorFlags c1 = []"
    using bind_returns by blast
  with a obtain d' where d: "body c1 = Inr d'" "errorFlags d' = []" by blast
  from unbind_returns [OF d(2)] obtain c2 where
    "unbind target d' = Inr c2" "binding_of target c2 = 0" by blast
  with b d show "\<exists>c2. Binder_scope target body c = Inr c2 \<and> binding_of target c2 = 0"
    by (simp add: Binder_scope_def)
qed

theorem unbind_clears_binding_witness:
  "errorFlags busy_context = []
   \<and> binding_of (TextureTarget texture7) busy_context = 5
   \<and> unbind (TextureTarget texture7) busy_context
       = Inr (gl (GlBindTexture 3553 0) busy_context)
   \<and> binding_of (TextureTarget texture7) (gl (GlBindTexture 3553 0) busy_context) = 0
   \<and> Binder_scope (TextureTarget texture7) Inr busy_context
       = Inr (gl (GlBindTexture 3553 0) (gl (GlBindTexture 3553 7) busy_context))
   \<and> binding_of (TextureTarget texture7)
        (gl (GlBindTexture 3553 0) (gl (GlBindTexture 3553 7) busy_context)) = 0
   \<and> binding_of (FrameBufferTarget framebuffer4) busy_context = 9
   \<and> unbind (FrameBufferTarget framebuffer4) busy_context
       = Inr (gl (GlBindFramebuffer 0) busy_context)
   \<and> binding_of (FrameBufferTarget framebuffer4) (gl (GlBindFramebuffer 0) busy_context) = 0
   \<and> Binder_scope (FrameBufferTarget framebuffer4) Inr busy_context
       = Inr (gl (GlBindFramebuffer 0) (gl (GlBindFramebuffer 4) busy_context))
   \<and> binding_of (FrameBufferTarget framebuffer4)
        (gl (GlBindFramebuffer 0) (gl (GlBindFramebuffer 4) busy_context)) = 0
   \<and> binding_of (ProgramTarget program3) busy_context = 6
   \<and> unbind (ProgramTarget program3) busy_context = Inr (gl (GlUseProgram 0) busy_context)
   \<and> binding_of (ProgramTarget program3) (gl (GlUseProgram 0) busy_context) = 0
   \<and> Binder_scope (ProgramTarget program3) Inr busy_context
       = Inr (gl (GlUseProgram 0) (gl (GlUseProgram 3) busy_context))
   \<and> binding_of (ProgramTarget program3)
        (gl (GlUseProgram 0) (gl (GlUseProgram 3) busy_context)) = 0"
proof -
  have e: "errorFlags busy_context = []" by (simp add: busy_context_def)
  have b: "\<forall>d. errorFlags d = [] \<longrightarrow> (\<exists>d'. Inr d = (Inr d' :: error + gl_context) \<and> errorFlags d' = [])"
    by simp
  have p: "binding_of (TextureTarget texture7) busy_context = 5"
    "binding_of (FrameBufferTarget framebuffer4) busy_context = 9"
    "binding_of (ProgramTarget program3) busy_context = 6"
    by (simp_all add: texture7_def busy_context_def)
  have u: "unbind (TextureTarget texture7) busy_context
             = Inr (gl (GlBindTexture 3553 0) busy_context)"
    "unbind (FrameBufferTarget framebuffer4) busy_context
             = Inr (gl (GlBindFramebuffer 0) busy_context)"
    "unbind (ProgramTarget program3) busy_context = Inr (gl (GlUseProgram 0) busy_context)"
    by (simp_all add: checkError_no_flags gl_errorFlags e texture7_def)
  have s: "Binder_scope (TextureTarget texture7) Inr busy_context
             = Inr (gl (GlBindTexture 3553 0) (gl (GlBindTexture 3553 7) busy_context))"
    "Binder_scope (FrameBufferTarget framebuffer4) Inr busy_context
             = Inr (gl (GlBindFramebuffer 0) (gl (GlBindFramebuffer 4) busy_context))"
    "Binder_scope (ProgramTarget program3) Inr busy_context
             = Inr (gl (GlUseProgram 0) (gl (GlUseProgram 3) busy_context))"
    by (simp_all add: Binder_scope_def checkError_no_flags gl_errorFlags e texture7_def
          framebuffer4_def program3_def)
  from unbind_clears_binding
         [of busy_context "TextureTarget texture7" program3
             "gl (GlBindTexture 3553 0) busy_context" Inr
             "gl (GlBindTexture 3553 0) (gl (GlBindTexture 3553 7) busy_context)"]
       unbind_clears_binding
         [of busy_context "FrameBufferTarget framebuffer4" program3
             "gl (GlBindFramebuffer 0) busy_context" Inr
             "gl (GlBindFramebuffer 0) (gl (GlBindFramebuffer 4) busy_context)"]
       unbind_clears_binding
         [of busy_context "ProgramTarget program3" program3
             "gl (GlUseProgram 0) busy_context" Inr
             "gl (GlUseProgram 0) (gl (GlUseProgram 3) busy_context)"]
       e b p u s
  show ?thesis by simp
qed

end
